theory Spec2Isabelle
  imports Main
begin

section \<open>Python values\<close>

text \<open>
  \<^verbatim>\<open>src/graiax/mockery/model/message.py\<close> declares pydantic (version 1) models: one
  class per message element, \<^verbatim>\<open>ForwardNode\<close>, and the container \<^verbatim>\<open>MessageChain\<close>. The
  file holds no function body but \<^verbatim>\<open>MessageChain.__init__\<close>; decoding is the construction
  of a model from a payload (\<^verbatim>\<open>Cls(**payload)\<close>, \<^verbatim>\<open>MessageChain(payloads)\<close>) and encoding
  is the model's export (\<^verbatim>\<open>.dict()\<close>). Both are fixed by the field declarations of the
  classes, read with pydantic's rules. The classes are translated to field tables, and
  pydantic's rules for the field types that occur are written once, over these tables.

  The Python objects that reach the models: \<^verbatim>\<open>None\<close>, \<^verbatim>\<open>bool\<close>, \<^verbatim>\<open>int\<close>, \<^verbatim>\<open>str\<close>
  (code points below 256), \<^verbatim>\<open>datetime\<close> objects (opaque, identified by a number),
  members of the two \<^verbatim>\<open>str\<close> enumerations (class name and value), lists, dicts with
  \<^verbatim>\<open>str\<close> keys in insertion order, and model instances (class name and \<^verbatim>\<open>__dict__\<close> in
  field order). Floats are outside the model.
\<close>

datatype pyval =
    PNone
  | PBool bool
  | PInt int
  | PStr string
  | PDatetime int
  | PEnum string string
  | PList "pyval list"
  | PDict "(string \<times> pyval) list"
  | PModel string "(string \<times> pyval) list"

section \<open>Field tables\<close>

text \<open>
  A field has a name, an alias (the key read from the input; the name unless
  \<^verbatim>\<open>Field(alias=...)\<close> says otherwise), a type, pydantic's \<^verbatim>\<open>required\<close> and \<^verbatim>\<open>allow_none\<close>
  flags and a default. A model has a name, its base classes among the models of the file,
  and its fields in declaration order (inherited fields first).
\<close>

datatype ftype =
    TStr
  | TInt
  | TDatetime
  | TEnum string "string list"
  | TList ftype
  | TModel model
and field = Field string string ftype bool bool pyval
and model = Model string "string list" "field list"

fun fname :: "field \<Rightarrow> string" where
  "fname (Field n a t r an d) = n"

fun falias :: "field \<Rightarrow> string" where
  "falias (Field n a t r an d) = a"

fun mname :: "model \<Rightarrow> string" where
  "mname (Model n bs fs) = n"

fun mbases :: "model \<Rightarrow> string list" where
  "mbases (Model n bs fs) = bs"

fun mfields :: "model \<Rightarrow> field list" where
  "mfields (Model n bs fs) = fs"

text \<open>\<^verbatim>\<open>name: T\<close> is required and refuses \<^verbatim>\<open>None\<close>.\<close>

definition required :: "string \<Rightarrow> ftype \<Rightarrow> field" where
  "required n t = Field n n t True False PNone"

text \<open>\<^verbatim>\<open>name: Optional[T]\<close>, with or without \<^verbatim>\<open>= None\<close>, is not required, accepts
  \<^verbatim>\<open>None\<close> and defaults to \<^verbatim>\<open>None\<close>.\<close>

definition optional :: "string \<Rightarrow> ftype \<Rightarrow> field" where
  "optional n t = Field n n t False True PNone"

text \<open>\<^verbatim>\<open>name: T = d\<close> and the bare override \<^verbatim>\<open>name = d\<close> of an inherited field are not
  required and default to \<^verbatim>\<open>d\<close>; \<^verbatim>\<open>None\<close> is accepted only when \<^verbatim>\<open>d\<close> is \<^verbatim>\<open>None\<close>.\<close>

definition defaulted :: "string \<Rightarrow> ftype \<Rightarrow> pyval \<Rightarrow> field" where
  "defaulted n t d = Field n n t False (d = PNone) d"

subsection \<open>The classes of message.py\<close>

definition Element :: model where
  "Element = Model ''Element'' [] [defaulted ''type'' TStr (PStr ''Unknown'')]"

definition Plain :: model where
  "Plain = Model ''Plain'' [''Element'']
     [defaulted ''type'' TStr (PStr ''Plain''), required ''text'' TStr]"

definition Source :: model where
  "Source = Model ''Source'' [''Element'']
     [defaulted ''type'' TStr (PStr ''Source''), required ''id'' TInt,
      required ''time'' TDatetime]"

definition MessageChain :: model where
  "MessageChain = Model ''MessageChain'' [] [required ''__root__'' (TList (TModel Element))]"

definition Quote :: model where
  "Quote = Model ''Quote'' [''Element'']
     [defaulted ''type'' TStr (PStr ''Quote''), required ''id'' TInt,
      required ''groupId'' TInt, required ''senderId'' TInt, required ''targetId'' TInt,
      required ''origin'' (TModel MessageChain)]"

definition At :: model where
  "At = Model ''At'' [''Element'']
     [defaulted ''type'' TStr (PStr ''At''), required ''target'' TInt,
      optional ''display'' TStr]"

definition AtAll :: model where
  "AtAll = Model ''AtAll'' [''Element''] [defaulted ''type'' TStr (PStr ''AtAll'')]"

definition Face :: model where
  "Face = Model ''Face'' [''Element'']
     [defaulted ''type'' TStr (PStr ''Face''), optional ''faceId'' TInt,
      optional ''name'' TStr]"

definition MarketFace :: model where
  "MarketFace = Model ''MarketFace'' [''Element'']
     [defaulted ''type'' TStr (PStr ''MarketFace''), required ''id'' TInt,
      required ''name'' TStr]"

definition Xml :: model where
  "Xml = Model ''Xml'' [''Element'']
     [defaulted ''type'' TStr (PStr ''Xml''), required ''xml'' TStr]"

text \<open>\<^verbatim>\<open>Json: str = Field(None, alias="json")\<close>: the default \<^verbatim>\<open>None\<close> makes the field
  optional; the alias is the only key it is read from.\<close>

definition Json :: model where
  "Json = Model ''Json'' [''Element'']
     [defaulted ''type'' TStr (PStr ''Json''), Field ''Json'' ''json'' TStr False True PNone]"

definition App :: model where
  "App = Model ''App'' [''Element'']
     [defaulted ''type'' TStr (PStr ''App''), required ''content'' TStr]"

definition PokeMethods :: "string list" where
  "PokeMethods = [''ChuoYiChuo'', ''BiXin'', ''DianZan'', ''XinSui'', ''LiuLiuLiu'',
     ''FangDaZhao'', ''BaoBeiQiu'', ''Rose'', ''ZhaoHuanShu'', ''RangNiPi'', ''JeiYin'',
     ''ShouLei'', ''GouYin'', ''ZhuaYiXia'', ''SuiPing'', ''QiaoMen'']"

definition Poke :: model where
  "Poke = Model ''Poke'' [''Element'']
     [defaulted ''type'' TStr (PStr ''Poke''),
      required ''name'' (TEnum ''PokeMethods'' PokeMethods)]"

definition Dice :: model where
  "Dice = Model ''Dice'' [''Element'']
     [defaulted ''type'' TStr (PStr ''Dice''), required ''value'' TInt]"

definition MusicShareKind :: "string list" where
  "MusicShareKind = [''NeteaseCloudMusic'', ''QQMusic'', ''MiguMusic'', ''KugouMusic'',
     ''KuwoMusic'']"

definition MusicShare :: model where
  "MusicShare = Model ''MusicShare'' [''Element'']
     [defaulted ''type'' TStr (PStr ''MusicShare''),
      required ''kind'' (TEnum ''MusicShareKind'' MusicShareKind),
      optional ''title'' TStr, optional ''summary'' TStr, optional ''jumpUrl'' TStr,
      optional ''pictureUrl'' TStr, optional ''musicUrl'' TStr, optional ''brief'' TStr]"

definition ForwardNode :: model where
  "ForwardNode = Model ''ForwardNode'' []
     [required ''senderId'' TInt, required ''time'' TDatetime,
      required ''senderName'' TStr, optional ''messageChain'' (TModel MessageChain),
      optional ''messageId'' TInt]"

definition Forward :: model where
  "Forward = Model ''Forward'' [''Element'']
     [defaulted ''type'' TStr (PStr ''Forward''),
      required ''nodeList'' (TList (TModel ForwardNode))]"

definition File :: model where
  "File = Model ''File'' [''Element'']
     [defaulted ''type'' TStr (PStr ''File''), required ''id'' TStr,
      required ''name'' TStr, required ''size'' TInt]"

definition MiraiCode :: model where
  "MiraiCode = Model ''MiraiCode'' [''Element'']
     [defaulted ''type'' TStr (PStr ''MiraiCode''), required ''code'' TStr]"

definition MultimediaElement :: model where
  "MultimediaElement = Model ''MultimediaElement'' [''Element'']
     [defaulted ''type'' TStr (PStr ''Unknown''), optional ''id'' TStr,
      optional ''url'' TStr, optional ''path'' TStr, optional ''base64'' TStr]"

definition Image :: model where
  "Image = Model ''Image'' [''Element'']
     [defaulted ''type'' TStr (PStr ''Image''), optional ''imageId'' TStr,
      optional ''url'' TStr, optional ''path'' TStr, optional ''base64'' TStr]"

definition FlashImage :: model where
  "FlashImage = Model ''FlashImage'' [''Element'']
     [defaulted ''type'' TStr (PStr ''FlashImage''), optional ''imageId'' TStr,
      optional ''url'' TStr, optional ''path'' TStr, optional ''base64'' TStr]"

definition Voice :: model where
  "Voice = Model ''Voice'' [''Element'']
     [defaulted ''type'' TStr (PStr ''Voice''), optional ''voiceId'' TStr,
      optional ''url'' TStr, optional ''path'' TStr, optional ''base64'' TStr,
      optional ''length'' TInt]"

text \<open>The element classes that carry a tag of their own, in the order of the file.\<close>

definition variants :: "model list" where
  "variants = [Plain, Source, Quote, At, AtAll, Face, MarketFace, Xml, Json, App, Poke,
     Dice, MusicShare, Forward, File, MiraiCode, Image, FlashImage, Voice]"

definition classes :: "model list" where
  "classes = Element # variants @ [ForwardNode, MultimediaElement, MessageChain]"

definition class_of :: "string \<Rightarrow> model option" where
  "class_of c = find (\<lambda>m. mname m = c) classes"

text \<open>\<^verbatim>\<open>issubclass\<close>: every class of the file derives from \<^verbatim>\<open>BaseModel\<close> directly or from
  \<^verbatim>\<open>Element\<close>, so the ancestors of a class among the models are its listed bases.\<close>

definition issubclass :: "string \<Rightarrow> string \<Rightarrow> bool" where
  "issubclass c d = (c = d \<or> (case class_of c of None \<Rightarrow> False | Some m \<Rightarrow> d \<in> set (mbases m)))"

section \<open>Validation\<close>

subsection \<open>Conversions of the interpreter\<close>

text \<open>\<^verbatim>\<open>str(n)\<close> for an \<^verbatim>\<open>int\<close>: decimal digits, with \<^verbatim>\<open>-\<close> before a negative number.
  (The interpreter's optional limit on the number of digits is not part of the model.)\<close>

fun str_of_nat :: "nat \<Rightarrow> string" where
  "str_of_nat n =
     (if n < 10 then [''0123456789'' ! n]
      else str_of_nat (n div 10) @ [''0123456789'' ! (n mod 10)])"

definition str_of_int :: "int \<Rightarrow> string" where
  "str_of_int i = (if i < 0 then CHR ''-'' # str_of_nat (nat (- i)) else str_of_nat (nat i))"

text \<open>\<^verbatim>\<open>int(s)\<close> for a \<^verbatim>\<open>str\<close>: blanks around, an optional sign, then decimal digits that
  single underscores may separate; anything else raises \<^verbatim>\<open>ValueError\<close> (here \<open>None\<close>).\<close>

definition int_space :: "char \<Rightarrow> bool" where
  "int_space c = (of_char c \<in> {9, 10, 11, 12, 13, 32, 133, 160 :: nat})"

definition is_digit :: "char \<Rightarrow> bool" where
  "is_digit c = (48 \<le> (of_char c :: nat) \<and> (of_char c :: nat) \<le> 57)"

definition digit_val :: "char \<Rightarrow> nat" where
  "digit_val c = of_char c - 48"

fun scan_digits :: "nat \<Rightarrow> string \<Rightarrow> nat option" where
  "scan_digits acc [] = Some acc"
| "scan_digits acc [c] = (if is_digit c then Some (acc * 10 + digit_val c) else None)"
| "scan_digits acc (c # d # cs) =
     (if is_digit c then scan_digits (acc * 10 + digit_val c) (d # cs)
      else if c = CHR ''_'' \<and> is_digit d then scan_digits (acc * 10 + digit_val d) cs
      else None)"

definition digits_value :: "string \<Rightarrow> nat option" where
  "digits_value s =
     (case s of [] \<Rightarrow> None
      | c # cs \<Rightarrow> if is_digit c then scan_digits (digit_val c) cs else None)"

definition int_of_str :: "string \<Rightarrow> int option" where
  "int_of_str s =
     (let t = rev (dropWhile int_space (rev (dropWhile int_space s)))
      in case t of
           [] \<Rightarrow> None
         | c # r \<Rightarrow>
             if c = CHR ''-'' then map_option (\<lambda>n. - int n) (digits_value r)
             else if c = CHR ''+'' then map_option int (digits_value r)
             else map_option int (digits_value t))"

subsection \<open>Errors\<close>

text \<open>
  A failed construction raises one \<^verbatim>\<open>ValidationError\<close> that lists every field that
  failed: the location (keys and list indices from the model down) and the error. The
  errors are those of \<^verbatim>\<open>pydantic.errors\<close>; \<open>KeywordsError\<close> is the \<^verbatim>\<open>TypeError\<close> of a call
  \<^verbatim>\<open>Cls(**d)\<close> whose \<^verbatim>\<open>d\<close> has a key that is not a \<^verbatim>\<open>str\<close>.
\<close>

datatype loc = Key string | Idx nat

datatype perr =
    MissingError
  | NoneIsNotAllowedError
  | StrError
  | IntegerError
  | EnumMemberError "string list"
  | ListError
  | DictError
  | DateTimeError
  | DateTimeTypeError
  | KeywordsError

type_synonym errors = "(loc list \<times> perr) list"

definition at_loc :: "loc \<Rightarrow> errors \<Rightarrow> errors" where
  "at_loc l es = map (\<lambda>(p, e). (l # p, e)) es"

definition lift_result :: "perr + pyval \<Rightarrow> errors + pyval" where
  "lift_result r = (case r of Inl e \<Rightarrow> Inl [([], e)] | Inr v \<Rightarrow> Inr v)"

subsection \<open>The validators of the field types\<close>

text \<open>\<^verbatim>\<open>str_validator\<close>: a \<^verbatim>\<open>str\<close> is kept (an enumeration member gives its value), an
  \<^verbatim>\<open>int\<close> (a \<^verbatim>\<open>bool\<close> is one) is converted with \<^verbatim>\<open>str\<close>, anything else is refused.\<close>

fun str_validator :: "pyval \<Rightarrow> perr + pyval" where
  "str_validator (PStr s) = Inr (PStr s)"
| "str_validator (PEnum c s) = Inr (PStr s)"
| "str_validator (PInt n) = Inr (PStr (str_of_int n))"
| "str_validator (PBool b) = Inr (PStr (if b then ''True'' else ''False''))"
| "str_validator v = Inl StrError"

text \<open>\<^verbatim>\<open>int_validator\<close>: an \<^verbatim>\<open>int\<close> that is not a \<^verbatim>\<open>bool\<close> is kept; anything else goes
  through \<^verbatim>\<open>int(v)\<close>, and its \<^verbatim>\<open>TypeError\<close> or \<^verbatim>\<open>ValueError\<close> is the integer error.\<close>

fun int_validator :: "pyval \<Rightarrow> perr + pyval" where
  "int_validator (PInt n) = Inr (PInt n)"
| "int_validator (PBool b) = Inr (PInt (if b then 1 else 0))"
| "int_validator (PStr s) =
     (case int_of_str s of None \<Rightarrow> Inl IntegerError | Some n \<Rightarrow> Inr (PInt n))"
| "int_validator (PEnum c s) =
     (case int_of_str s of None \<Rightarrow> Inl IntegerError | Some n \<Rightarrow> Inr (PInt n))"
| "int_validator v = Inl IntegerError"

text \<open>\<^verbatim>\<open>enum_member_validator\<close>: \<^verbatim>\<open>E(v)\<close> finds the member whose value equals \<^verbatim>\<open>v\<close>; both
  enumerations of the file mix in \<^verbatim>\<open>str\<close>, so a member compares as its value.\<close>

fun enum_member_validator :: "string \<Rightarrow> string list \<Rightarrow> pyval \<Rightarrow> perr + pyval" where
  "enum_member_validator E vals (PStr s) =
     (if s \<in> set vals then Inr (PEnum E s) else Inl (EnumMemberError vals))"
| "enum_member_validator E vals (PEnum c s) =
     (if s \<in> set vals then Inr (PEnum E s) else Inl (EnumMemberError vals))"
| "enum_member_validator E vals v = Inl (EnumMemberError vals)"

text \<open>\<^verbatim>\<open>parse_datetime\<close> returns a \<^verbatim>\<open>datetime\<close> object as it is. What it makes of a
  number or a string is pydantic's own arithmetic on floats and its pattern for ISO
  dates: that part is the parameter \<open>pdt\<close>, which gives the error or the object.\<close>

type_synonym datetime_parser = "pyval \<Rightarrow> perr + int"

fun parse_datetime :: "datetime_parser \<Rightarrow> pyval \<Rightarrow> perr + pyval" where
  "parse_datetime pdt (PDatetime d) = Inr (PDatetime d)"
| "parse_datetime pdt v = (case pdt v of Inl e \<Rightarrow> Inl e | Inr d \<Rightarrow> Inr (PDatetime d))"

subsection \<open>A value passed where a model is expected\<close>

text \<open>\<^verbatim>\<open>d[k] = v\<close>: a key already there keeps its place and takes the new value.\<close>

fun setitem :: "(string \<times> pyval) list \<Rightarrow> string \<Rightarrow> pyval \<Rightarrow> (string \<times> pyval) list" where
  "setitem [] k v = [(k, v)]"
| "setitem ((k', v') # d) k v = (if k' = k then (k, v) # d else (k', v') # setitem d k v)"

fun hashable :: "pyval \<Rightarrow> bool" where
  "hashable (PList xs) = False"
| "hashable (PDict d) = False"
| "hashable (PModel c d) = False"
| "hashable v = True"

text \<open>
  \<^verbatim>\<open>dict(obj)\<close> for an object that is not a dict reads \<^verbatim>\<open>obj\<close> as a sequence of
  key-value pairs. Each item must itself have exactly two items and a hashable first
  one. A key that is no \<^verbatim>\<open>str\<close> is recorded as \<open>OtherKey\<close>: the dict is built, and the
  call \<^verbatim>\<open>Cls(**d)\<close> that follows refuses it.
\<close>

datatype dkey = StrKey string | OtherKey

fun as_key :: "pyval \<Rightarrow> dkey option" where
  "as_key (PStr s) = Some (StrKey s)"
| "as_key (PEnum c s) = Some (StrKey s)"
| "as_key v = (if hashable v then Some OtherKey else None)"

text \<open>The two items of a pair. Iterating a \<^verbatim>\<open>str\<close> gives its characters, iterating a
  dict its keys, iterating a model its (name, value) tuples; a tuple is a key that is no
  \<^verbatim>\<open>str\<close>, hashable when its items are.\<close>

fun pair_of :: "pyval \<Rightarrow> (dkey \<times> pyval) option" where
  "pair_of (PList [k, v]) = map_option (\<lambda>key. (key, v)) (as_key k)"
| "pair_of (PStr [a, b]) = Some (StrKey [a], PStr [b])"
| "pair_of (PEnum c [a, b]) = Some (StrKey [a], PStr [b])"
| "pair_of (PDict [(k1, v1), (k2, v2)]) = Some (StrKey k1, PStr k2)"
| "pair_of (PModel c [(n1, v1), (n2, v2)]) = (if hashable v1 then Some (OtherKey, v2) else None)"
| "pair_of v = None"

fun pairs_of :: "pyval list \<Rightarrow> (dkey \<times> pyval) list option" where
  "pairs_of [] = Some []"
| "pairs_of (x # xs) =
     (case pair_of x of None \<Rightarrow> None
      | Some p \<Rightarrow> (case pairs_of xs of None \<Rightarrow> None | Some ps \<Rightarrow> Some (p # ps)))"

fun keyword_args :: "(dkey \<times> pyval) list \<Rightarrow> (string \<times> pyval) list \<Rightarrow> perr + (string \<times> pyval) list" where
  "keyword_args [] d = Inr d"
| "keyword_args ((StrKey k, v) # ps) d = keyword_args ps (setitem d k v)"
| "keyword_args ((OtherKey, v) # ps) d = Inl KeywordsError"

text \<open>\<^verbatim>\<open>dict(value)\<close> in \<^verbatim>\<open>BaseModel.validate\<close>, followed by the keyword call: the
  \<^verbatim>\<open>TypeError\<close> or \<^verbatim>\<open>ValueError\<close> of \<^verbatim>\<open>dict\<close> becomes \<^verbatim>\<open>DictError\<close>.\<close>

fun dict_of_value :: "pyval \<Rightarrow> perr + (string \<times> pyval) list" where
  "dict_of_value (PDict d) = Inr d"
| "dict_of_value (PModel c d) = Inr d"
| "dict_of_value (PStr s) = (if s = [] then Inr [] else Inl DictError)"
| "dict_of_value (PEnum c s) = (if s = [] then Inr [] else Inl DictError)"
| "dict_of_value (PList xs) =
     (case pairs_of xs of None \<Rightarrow> Inl DictError | Some ps \<Rightarrow> keyword_args ps [])"
| "dict_of_value v = Inl DictError"

text \<open>\<^verbatim>\<open>_enforce_dict_if_root\<close>: a model with the field \<^verbatim>\<open>__root__\<close> wraps every value but
  a dict (or a model) whose only key is \<^verbatim>\<open>__root__\<close>.\<close>

definition custom_root :: "field list \<Rightarrow> bool" where
  "custom_root fs = (''__root__'' \<in> set (map fname fs))"

fun only_root_key :: "pyval \<Rightarrow> bool" where
  "only_root_key (PDict d) = (set (map fst d) = {''__root__''})"
| "only_root_key (PModel c d) = (set (map fst d) = {''__root__''})"
| "only_root_key v = False"

definition enforce_dict_if_root :: "field list \<Rightarrow> pyval \<Rightarrow> pyval" where
  "enforce_dict_if_root fs obj =
     (if custom_root fs \<and> \<not> only_root_key obj then PDict [(''__root__'', obj)] else obj)"

fun isinstance :: "pyval \<Rightarrow> string \<Rightarrow> bool" where
  "isinstance (PModel c d) n = issubclass c n"
| "isinstance v n = False"

subsection \<open>Validating a model\<close>

text \<open>
  \<open>validate_model\<close> is \<^verbatim>\<open>pydantic.main.validate_model\<close> with the default configuration
  (keys that are no field's alias are ignored): each field in order reads its alias from
  the input; an absent required field is the missing error, an absent optional one takes
  its default unvalidated; a present one goes through \<^verbatim>\<open>ModelField.validate\<close> (\<open>field_validate\<close>).
  All errors are collected. \<open>validate_type\<close> applies the validator of the type: for a
  list every item in turn (\<open>validate_items\<close>, errors collected under the item's index),
  for a model \<^verbatim>\<open>BaseModel.validate\<close>: an instance of the class or of a subclass is
  taken as it is, anything else is turned into a dict and constructed. An item of a list
  goes through the \<^verbatim>\<open>validate\<close> of the list's item field (\<open>item_validate\<close>): no item type
  of the file is \<^verbatim>\<open>Optional\<close>, so \<^verbatim>\<open>None\<close> is refused there, before the validator of the
  type is reached.
\<close>

function (sequential) validate_model :: "datetime_parser \<Rightarrow> model \<Rightarrow> (string \<times> pyval) list \<Rightarrow> errors + pyval"
and validate_fields :: "datetime_parser \<Rightarrow> field list \<Rightarrow> (string \<times> pyval) list \<Rightarrow> errors \<times> (string \<times> pyval) list"
and field_validate :: "datetime_parser \<Rightarrow> field \<Rightarrow> pyval \<Rightarrow> errors + pyval"
and validate_type :: "datetime_parser \<Rightarrow> ftype \<Rightarrow> pyval \<Rightarrow> errors + pyval"
and validate_items :: "datetime_parser \<Rightarrow> ftype \<Rightarrow> nat \<Rightarrow> pyval list \<Rightarrow> errors \<times> pyval list"
and item_validate :: "datetime_parser \<Rightarrow> ftype \<Rightarrow> pyval \<Rightarrow> errors + pyval"
where
  "validate_model pdt (Model n bs fs) input_data =
     (case validate_fields pdt fs input_data of
        ([], vals) \<Rightarrow> Inr (PModel n vals)
      | (e # es, vals) \<Rightarrow> Inl (e # es))"
| "validate_fields pdt [] input_data = ([], [])"
| "validate_fields pdt (Field n a t r an d # fs) input_data =
     (case validate_fields pdt fs input_data of
        (es, vals) \<Rightarrow>
          (case map_of input_data a of
             None \<Rightarrow> if r then (([Key a], MissingError) # es, vals) else (es, (n, d) # vals)
           | Some v \<Rightarrow>
               (case field_validate pdt (Field n a t r an d) v of
                  Inl e \<Rightarrow> (e @ es, vals)
                | Inr v' \<Rightarrow> (es, (n, v') # vals))))"
| "field_validate pdt (Field n a t r an d) v =
     (if v = PNone then (if an then Inr PNone else Inl [([Key a], NoneIsNotAllowedError)])
      else (case validate_type pdt t v of
              Inl es \<Rightarrow> Inl (at_loc (Key a) es)
            | Inr v' \<Rightarrow> Inr v'))"
| "validate_type pdt TStr v = lift_result (str_validator v)"
| "validate_type pdt TInt v = lift_result (int_validator v)"
| "validate_type pdt TDatetime v = lift_result (parse_datetime pdt v)"
| "validate_type pdt (TEnum E vals) v = lift_result (enum_member_validator E vals v)"
| "validate_type pdt (TList t) v =
     (case v of
        PList xs \<Rightarrow>
          (case validate_items pdt t 0 xs of
             ([], rs) \<Rightarrow> Inr (PList rs)
           | (e # es, rs) \<Rightarrow> Inl (e # es))
      | _ \<Rightarrow> Inl [([], ListError)])"
| "validate_type pdt (TModel (Model n bs fs)) v =
     (if isinstance v n then Inr v
      else (case dict_of_value (enforce_dict_if_root fs v) of
              Inl e \<Rightarrow> Inl [([], e)]
            | Inr d \<Rightarrow> validate_model pdt (Model n bs fs) d))"
| "validate_items pdt t i [] = ([], [])"
| "validate_items pdt t i (x # xs) =
     (case validate_items pdt t (Suc i) xs of
        (es, rs) \<Rightarrow>
          (case item_validate pdt t x of
             Inl e \<Rightarrow> (at_loc (Idx i) e @ es, rs)
           | Inr r \<Rightarrow> (es, r # rs)))"
| "item_validate pdt t v =
     (if v = PNone then Inl [([], NoneIsNotAllowedError)] else validate_type pdt t v)"
  by pat_completeness auto

termination
  by (relation "measures [
     (\<lambda>x. case x of
        Inl (Inl (pdt, m, d)) \<Rightarrow> size m
      | Inl (Inr (Inl (pdt, fs, d))) \<Rightarrow> size_list size fs
      | Inl (Inr (Inr (pdt, f, v))) \<Rightarrow> size f
      | Inr (Inl (pdt, t, v)) \<Rightarrow> size t
      | Inr (Inr (Inl (pdt, t, i, xs))) \<Rightarrow> size t
      | Inr (Inr (Inr (pdt, t, v))) \<Rightarrow> size t),
     (\<lambda>x. case x of
        Inr (Inr (Inl (pdt, t, i, xs))) \<Rightarrow> length xs + 2
      | Inr (Inr (Inr (pdt, t, v))) \<Rightarrow> 1
      | _ \<Rightarrow> 0)]") auto

declare item_validate.simps [simp del]

text \<open>\<^verbatim>\<open>BaseModel.__init__(**data)\<close>, the constructor of every class but
  \<^verbatim>\<open>MessageChain\<close>, raises the \<^verbatim>\<open>ValidationError\<close> of the class.\<close>

datatype exn = ValidationError errors string

definition init :: "datetime_parser \<Rightarrow> model \<Rightarrow> (string \<times> pyval) list \<Rightarrow> exn + pyval" where
  "init pdt m data =
     (case validate_model pdt m data of
        Inl es \<Rightarrow> Inl (ValidationError es (mname m))
      | Inr v \<Rightarrow> Inr v)"

text \<open>\<^verbatim>\<open>MessageChain.__init__(self, __root__)\<close>, lines 373-374: the one argument,
  given by position or under its name, is passed on under the keyword \<^verbatim>\<open>__root__\<close>.\<close>

definition MessageChain_init :: "datetime_parser \<Rightarrow> pyval \<Rightarrow> exn + pyval" where
  "MessageChain_init pdt root = init pdt MessageChain [(''__root__'', root)]"

section \<open>Export\<close>

text \<open>
  \<^verbatim>\<open>.dict(by_alias=ba)\<close> lists the \<^verbatim>\<open>__dict__\<close> of the instance in order, under the field
  names, or under the aliases when \<^verbatim>\<open>by_alias\<close> is set (the default is not), and exports
  each value (\<^verbatim>\<open>_get_value\<close>): a model inside becomes its own \<^verbatim>\<open>.dict\<close>, or the value
  under \<^verbatim>\<open>__root__\<close> when it has that key; a list and a dict are exported item by item;
  everything else is kept. (The keys of a \<^verbatim>\<open>__dict__\<close> are distinct, and so are the
  aliases within each class of the file, so that no key is written twice.)
\<close>

definition alias_of :: "string \<Rightarrow> string \<Rightarrow> string" where
  "alias_of c k =
     (case class_of c of
        None \<Rightarrow> k
      | Some m \<Rightarrow> (case find (\<lambda>f. fname f = k) (mfields m) of None \<Rightarrow> k | Some f \<Rightarrow> falias f))"

fun get_value :: "bool \<Rightarrow> pyval \<Rightarrow> pyval"
and get_values :: "bool \<Rightarrow> pyval list \<Rightarrow> pyval list"
and get_items :: "bool \<Rightarrow> (string \<Rightarrow> string) \<Rightarrow> (string \<times> pyval) list \<Rightarrow> (string \<times> pyval) list"
where
  "get_value ba (PModel c d) =
     (let v_dict = get_items ba (if ba then alias_of c else (\<lambda>k. k)) d
      in case map_of v_dict ''__root__'' of Some r \<Rightarrow> r | None \<Rightarrow> PDict v_dict)"
| "get_value ba (PDict d) = PDict (get_items ba (\<lambda>k. k) d)"
| "get_value ba (PList xs) = PList (get_values ba xs)"
| "get_value ba v = v"
| "get_values ba [] = []"
| "get_values ba (x # xs) = get_value ba x # get_values ba xs"
| "get_items ba key [] = []"
| "get_items ba key ((k, v) # d) = (key k, get_value ba v) # get_items ba key d"

text \<open>\<^verbatim>\<open>.dict\<close> is a method of models: on any other value there is nothing to call
  (\<open>None\<close>).\<close>

fun dict :: "bool \<Rightarrow> pyval \<Rightarrow> pyval option" where
  "dict ba (PModel c d) = Some (PDict (get_items ba (if ba then alias_of c else (\<lambda>k. k)) d))"
| "dict ba v = None"

section \<open>Notions used in the statements\<close>

text \<open>An instance of the base class \<^verbatim>\<open>Element\<close>: its only field is \<^verbatim>\<open>type\<close>.\<close>

definition base_element :: "string \<Rightarrow> pyval" where
  "base_element t = PModel ''Element'' [(''type'', PStr t)]"

text \<open>An instance of \<^verbatim>\<open>MessageChain\<close> holding the given elements.\<close>

definition chain_of :: "pyval list \<Rightarrow> pyval" where
  "chain_of es = PModel ''MessageChain'' [(''__root__'', PList es)]"

text \<open>The concrete examples need a value for the parameter \<open>pdt\<close>. This one refuses
  every value; no example holds a time that has to be parsed.\<close>

definition refuse_all :: datetime_parser where
  "refuse_all v = Inl DateTimeTypeError"

text \<open>The text \<^verbatim>\<open>{"a":1}\<close> of the Json example.\<close>

definition example_json :: string where
  "example_json = [CHR 0x7B, CHR 0x22, CHR ''a'', CHR 0x22, CHR '':'', CHR ''1'', CHR 0x7D]"

text \<open>\<open>no_models v\<close>: no model instance is left in \<open>v\<close>; it is made of \<^verbatim>\<open>None\<close>,
  \<^verbatim>\<open>bool\<close>, \<^verbatim>\<open>int\<close>, \<^verbatim>\<open>str\<close>, datetime objects, enumeration members, lists and dicts.\<close>

fun no_models :: "pyval \<Rightarrow> bool"
and no_models_list :: "pyval list \<Rightarrow> bool"
and no_models_items :: "(string \<times> pyval) list \<Rightarrow> bool"
where
  "no_models (PModel c d) = False"
| "no_models (PList xs) = no_models_list xs"
| "no_models (PDict d) = no_models_items d"
| "no_models v = True"
| "no_models_list [] = True"
| "no_models_list (x # xs) = (no_models x \<and> no_models_list xs)"
| "no_models_items [] = True"
| "no_models_items ((k, v) # d) = (no_models v \<and> no_models_items d)"

text \<open>A raw value of the wire: \<^verbatim>\<open>None\<close>, \<^verbatim>\<open>bool\<close>, \<^verbatim>\<open>int\<close>, \<^verbatim>\<open>str\<close>, and lists and dicts
  of raw values. A datetime object, an enumeration member and a model instance are none.\<close>

fun wire_value :: "pyval \<Rightarrow> bool"
and wire_values :: "pyval list \<Rightarrow> bool"
and wire_items :: "(string \<times> pyval) list \<Rightarrow> bool"
where
  "wire_value (PModel c d) = False"
| "wire_value (PDatetime d) = False"
| "wire_value (PEnum c s) = False"
| "wire_value (PList xs) = wire_values xs"
| "wire_value (PDict d) = wire_items d"
| "wire_value v = True"
| "wire_values [] = True"
| "wire_values (x # xs) = (wire_value x \<and> wire_values xs)"
| "wire_items [] = True"
| "wire_items ((k, v) # d) = (wire_value v \<and> wire_items d)"

text \<open>A tagged object: a dict whose key \<^verbatim>\<open>type\<close> holds a string.\<close>

fun tagged :: "pyval \<Rightarrow> bool" where
  "tagged (PDict kvs) = (case map_of kvs ''type'' of Some (PStr t) \<Rightarrow> True | _ \<Rightarrow> False)"
| "tagged v = False"

text \<open>A value that is no list, dict or model instance.\<close>

fun atom :: "pyval \<Rightarrow> bool" where
  "atom (PList xs) = False"
| "atom (PDict d) = False"
| "atom (PModel c d) = False"
| "atom v = True"

text \<open>
  A value of a field contract. \<open>well_typed t v\<close> holds when \<open>v\<close> is what a field of type
  \<open>t\<close> holds after validation: a \<^verbatim>\<open>str\<close>, an \<^verbatim>\<open>int\<close>, a datetime object, a member of the
  enumeration, a list of such values, or an instance of exactly the declared class whose
  \<^verbatim>\<open>__dict__\<close> has the class's fields in order, each \<^verbatim>\<open>None\<close> where the field allows
  it or a value of the field's type. For \<^verbatim>\<open>MessageChain\<close> the elements are instances of
  the base class \<^verbatim>\<open>Element\<close>.
\<close>

fun ftyp :: "field \<Rightarrow> ftype" where
  "ftyp (Field n a t r an d) = t"

function (sequential) well_typed :: "ftype \<Rightarrow> pyval \<Rightarrow> bool"
and well_typed_fields :: "field list \<Rightarrow> (string \<times> pyval) list \<Rightarrow> bool"
and well_typed_items :: "ftype \<Rightarrow> pyval list \<Rightarrow> bool"
where
  "well_typed TStr v = (case v of PStr s \<Rightarrow> True | _ \<Rightarrow> False)"
| "well_typed TInt v = (case v of PInt i \<Rightarrow> True | _ \<Rightarrow> False)"
| "well_typed TDatetime v = (case v of PDatetime d \<Rightarrow> True | _ \<Rightarrow> False)"
| "well_typed (TEnum E vals) v = (case v of PEnum c s \<Rightarrow> c = E \<and> s \<in> set vals | _ \<Rightarrow> False)"
| "well_typed (TList t) v = (case v of PList xs \<Rightarrow> well_typed_items t xs | _ \<Rightarrow> False)"
| "well_typed (TModel (Model n bs fs)) v =
     (case v of PModel c vals \<Rightarrow> c = n \<and> well_typed_fields fs vals | _ \<Rightarrow> False)"
| "well_typed_fields [] vals = (vals = [])"
| "well_typed_fields (Field n a t r an d # fs) [] = False"
| "well_typed_fields (Field n a t r an d # fs) ((k, v) # rest) =
     (k = n \<and> (if v = PNone then an else well_typed t v) \<and> well_typed_fields fs rest)"
| "well_typed_items t [] = True"
| "well_typed_items t (x # xs) = (well_typed t x \<and> well_typed_items t xs)"
  by pat_completeness auto

termination
  by (relation "measures [
     (\<lambda>x. case x of
        Inl (t, v) \<Rightarrow> size t
      | Inr (Inl (fs, vals)) \<Rightarrow> size_list size fs
      | Inr (Inr (t, xs)) \<Rightarrow> size t),
     (\<lambda>x. case x of
        Inr (Inr (t, xs)) \<Rightarrow> Suc (length xs)
      | _ \<Rightarrow> 0)]") auto

text \<open>
  What the round trip needs of a field table: the class is the one the table of classes
  has under its name, its field names and its aliases are distinct, the aliases are the
  names when the export is by name, and \<^verbatim>\<open>__root__\<close> is either the only field, a
  required list, or no field's name or alias.
\<close>

fun root_ok :: "field list \<Rightarrow> bool" where
  "root_ok [Field n a (TList t) r an d] =
     ((n = ''__root__'' \<and> a = ''__root__'' \<and> \<not> an) \<or> (n \<noteq> ''__root__'' \<and> a \<noteq> ''__root__''))"
| "root_ok fs = (''__root__'' \<notin> set (map fname fs) \<and> ''__root__'' \<notin> set (map falias fs))"

fun wf_type :: "bool \<Rightarrow> ftype \<Rightarrow> bool"
and wf_fields :: "bool \<Rightarrow> field list \<Rightarrow> bool"
where
  "wf_type ba (TList t) = wf_type ba t"
| "wf_type ba (TModel (Model n bs fs)) =
     (class_of n = Some (Model n bs fs) \<and> distinct (map fname fs) \<and> distinct (map falias fs) \<and>
      (ba \<or> map falias fs = map fname fs) \<and> root_ok fs \<and> wf_fields ba fs)"
| "wf_type ba t = True"
| "wf_fields ba [] = True"
| "wf_fields ba (Field n a t r an d # fs) = (wf_type ba t \<and> wf_fields ba fs)"

section \<open>Decoding one element of a chain\<close>

lemmas field_defs = required_def optional_def defaulted_def

lemma str_validator_Inr: "str_validator v = Inr v' \<Longrightarrow> \<exists>s. v' = PStr s"
  by (cases v) auto

lemma validate_model_Element:
  "validate_model pdt Element d =
     (case map_of d ''type'' of
        None \<Rightarrow> Inr (PModel ''Element'' [(''type'', PStr ''Unknown'')])
      | Some v \<Rightarrow>
          if v = PNone then Inl [([Key ''type''], NoneIsNotAllowedError)]
          else (case str_validator v of
                  Inl e \<Rightarrow> Inl [([Key ''type''], e)]
                | Inr v' \<Rightarrow> Inr (PModel ''Element'' [(''type'', v')])))"
  by (simp add: Element_def field_defs lift_result_def at_loc_def split: option.splits sum.splits)

lemma Element_validate:
  "validate_type pdt (TModel Element) x =
     (if isinstance x ''Element'' then Inr x
      else (case dict_of_value x of
              Inl e \<Rightarrow> Inl [([], e)]
            | Inr d \<Rightarrow> validate_model pdt Element d))"
  unfolding Element_def field_defs
  by (simp add: enforce_dict_if_root_def custom_root_def split: sum.splits)

lemma item_validate_not_None: "v \<noteq> PNone \<Longrightarrow> item_validate pdt t v = validate_type pdt t v"
  by (simp add: item_validate.simps)

lemma item_validate_None: "item_validate pdt t PNone = Inl [([], NoneIsNotAllowedError)]"
  by (simp add: item_validate.simps)

lemma Element_item_errors_nonempty:
  "item_validate pdt (TModel Element) x = Inl e \<Longrightarrow> e \<noteq> []"
  by (auto simp: item_validate.simps Element_validate validate_model_Element
      split: if_splits sum.splits option.splits)

lemma Element_dict_result:
  assumes "validate_type pdt (TModel Element) (PDict d) = Inr e"
  shows "\<exists>t. e = base_element t \<and>
          (map_of d ''type'' = None \<longrightarrow> t = ''Unknown'') \<and>
          (\<forall>s. map_of d ''type'' = Some (PStr s) \<longrightarrow> t = s)"
proof (cases "map_of d ''type''")
  case None
  with assms show ?thesis
    by (simp add: Element_validate validate_model_Element base_element_def)
next
  case (Some v)
  with assms obtain v' where v': "str_validator v = Inr v'" "e = PModel ''Element'' [(''type'', v')]"
    by (auto simp: Element_validate validate_model_Element split: if_splits sum.splits)
  from v'(1) obtain t where "v' = PStr t" by (auto dest: str_validator_Inr)
  with v' Some show ?thesis
    by (auto simp: base_element_def)
qed

section \<open>Decoding a chain\<close>

lemma validate_items_eq:
  "validate_items pdt t i xs =
     (concat (map (\<lambda>(j, x). case item_validate pdt t x of Inl e \<Rightarrow> at_loc (Idx j) e | Inr r \<Rightarrow> [])
                  (enumerate i xs)),
      concat (map (\<lambda>x. case item_validate pdt t x of Inl e \<Rightarrow> [] | Inr r \<Rightarrow> [r]) xs))"
  by (induction xs arbitrary: i) (simp_all split: sum.splits)

lemma MessageChain_init_list:
  "MessageChain_init pdt (PList xs) =
     (case validate_items pdt (TModel Element) 0 xs of
        ([], rs) \<Rightarrow> Inr (PModel ''MessageChain'' [(''__root__'', PList rs)])
      | (e # es, rs) \<Rightarrow> Inl (ValidationError (at_loc (Key ''__root__'') (e # es)) ''MessageChain''))"
  by (simp add: MessageChain_init_def init_def MessageChain_def field_defs at_loc_def
      split: prod.splits list.splits)

lemma item_errors_nil:
  assumes "\<And>x e. f x = Inl e \<Longrightarrow> e \<noteq> []"
  shows "concat (map (\<lambda>(j, x). case f x of Inl e \<Rightarrow> at_loc (Idx j) e | Inr r \<Rightarrow> [])
                     (enumerate i xs)) = [] \<longleftrightarrow>
         list_all (\<lambda>x. \<not> isl (f x)) xs"
  using assms by (induction xs arbitrary: i) (auto simp: at_loc_def split: sum.splits)

lemma item_results:
  "list_all (\<lambda>x. \<not> isl (f x)) xs \<Longrightarrow>
     concat (map (\<lambda>x. case f x of Inl e \<Rightarrow> [] | Inr r \<Rightarrow> [r]) xs) = map (\<lambda>x. projr (f x)) xs"
  by (induction xs) (auto split: sum.splits)

lemma at_loc_concat: "at_loc l (concat xss) = concat (map (at_loc l) xss)"
  by (simp add: at_loc_def[abs_def] map_concat)

lemma chain_decode_eq:
  "MessageChain_init pdt (PList xs) =
     (if list_all (\<lambda>x. \<not> isl (item_validate pdt (TModel Element) x)) xs
      then Inr (chain_of (map (\<lambda>x. projr (item_validate pdt (TModel Element) x)) xs))
      else Inl (ValidationError
             (concat (map (\<lambda>(i, x). case item_validate pdt (TModel Element) x of
                                      Inl e \<Rightarrow> at_loc (Key ''__root__'') (at_loc (Idx i) e)
                                    | Inr r \<Rightarrow> [])
                          (enumerate 0 xs)))
             ''MessageChain''))"
proof -
  let ?f = "item_validate pdt (TModel Element)"
  let ?errs = "concat (map (\<lambda>(j, x). case ?f x of Inl e \<Rightarrow> at_loc (Idx j) e | Inr r \<Rightarrow> [])
                           (enumerate 0 xs))"
  have items: "validate_items pdt (TModel Element) 0 xs =
      (?errs, concat (map (\<lambda>x. case ?f x of Inl e \<Rightarrow> [] | Inr r \<Rightarrow> [r]) xs))"
    by (rule validate_items_eq)
  have nil: "?errs = [] \<longleftrightarrow> list_all (\<lambda>x. \<not> isl (?f x)) xs"
    by (rule item_errors_nil) (rule Element_item_errors_nonempty)
  show ?thesis
  proof (cases "list_all (\<lambda>x. \<not> isl (?f x)) xs")
    case True
    with nil have e: "?errs = []" by simp
    have "validate_items pdt (TModel Element) 0 xs = ([], map (\<lambda>x. projr (?f x)) xs)"
      unfolding items e item_results[OF True] by (rule refl)
    with True show ?thesis
      by (simp add: MessageChain_init_list chain_of_def)
  next
    case False
    with nil have ne: "?errs \<noteq> []" by simp
    have "at_loc (Key ''__root__'') ?errs =
        concat (map (\<lambda>(i, x). case ?f x of
                                  Inl e \<Rightarrow> at_loc (Key ''__root__'') (at_loc (Idx i) e)
                                | Inr r \<Rightarrow> [])
                    (enumerate 0 xs))"
      unfolding at_loc_concat map_map
      by (rule arg_cong[where f = concat], rule map_cong)
         (auto simp: at_loc_def split: sum.splits)
    moreover obtain e es where "?errs = e # es"
      using ne by (cases ?errs) auto
    ultimately show ?thesis
      using False by (simp add: MessageChain_init_list items)
  qed
qed

lemma chain_decode_dicts:
  assumes "MessageChain_init pdt (PList (map PDict ps)) = Inr c"
  shows "list_all (\<lambda>d. \<not> isl (validate_type pdt (TModel Element) (PDict d))) ps \<and>
         c = chain_of (map (\<lambda>d. projr (validate_type pdt (TModel Element) (PDict d))) ps)"
  using assms
  by (auto simp: chain_decode_eq list_all_iff comp_def item_validate_not_None split: if_splits)

lemma alias_of_base:
  "alias_of ''Element'' ''type'' = ''type''"
  "alias_of ''MessageChain'' ''__root__'' = ''__root__''"
  by (simp_all add: alias_of_def class_of_def classes_def Element_def field_defs
      MessageChain_def variants_def Plain_def Source_def Quote_def At_def AtAll_def Face_def
      MarketFace_def Xml_def Json_def App_def Poke_def Dice_def MusicShare_def Forward_def
      File_def MiraiCode_def Image_def FlashImage_def Voice_def ForwardNode_def
      MultimediaElement_def)

lemma get_value_chain_of_base:
  "get_value ba (chain_of (map base_element ts)) = PList (map (\<lambda>t. PDict [(''type'', PStr t)]) ts)"
proof -
  have "get_values ba (map base_element ts) = map (\<lambda>t. PDict [(''type'', PStr t)]) ts"
    by (induction ts) (simp_all add: base_element_def alias_of_base)
  then show ?thesis
    by (simp add: chain_of_def alias_of_base)
qed

section \<open>The claims\<close>

text \<open>
  C3. Whatever payloads a chain is built from, each decoded element is an instance of
  the base class \<^verbatim>\<open>Element\<close> with the one field \<^verbatim>\<open>type\<close>: the payload's \<^verbatim>\<open>type\<close> string,
  or \<^verbatim>\<open>"Unknown"\<close> when the payload has no such key. Every other field of the payload
  is dropped, and no payload becomes an instance of a variant class.
\<close>

theorem chain_decode_gives_base_elements:
  assumes "MessageChain_init pdt (PList (map PDict ps)) = Inr c"
  shows "\<exists>ts. length ts = length ps \<and> c = chain_of (map base_element ts) \<and>
           (\<forall>i < length ps.
              (map_of (ps ! i) ''type'' = None \<longrightarrow> ts ! i = ''Unknown'') \<and>
              (\<forall>s. map_of (ps ! i) ''type'' = Some (PStr s) \<longrightarrow> ts ! i = s))"
proof -
  let ?f = "\<lambda>d. validate_type pdt (TModel Element) (PDict d)"
  from chain_decode_dicts[OF assms]
  have ok: "list_all (\<lambda>d. \<not> isl (?f d)) ps" and c: "c = chain_of (map (\<lambda>d. projr (?f d)) ps)"
    by simp_all
  have "\<forall>d \<in> set ps. \<exists>t. projr (?f d) = base_element t \<and>
          (map_of d ''type'' = None \<longrightarrow> t = ''Unknown'') \<and>
          (\<forall>s. map_of d ''type'' = Some (PStr s) \<longrightarrow> t = s)"
  proof
    fix d assume "d \<in> set ps"
    with ok have "\<not> isl (?f d)" by (simp add: list_all_iff)
    then obtain e where e: "?f d = Inr e" by (cases "?f d") auto
    from Element_dict_result[OF e] e
    show "\<exists>t. projr (?f d) = base_element t \<and>
          (map_of d ''type'' = None \<longrightarrow> t = ''Unknown'') \<and>
          (\<forall>s. map_of d ''type'' = Some (PStr s) \<longrightarrow> t = s)" by simp
  qed
  then obtain g where g: "\<forall>d \<in> set ps. projr (?f d) = base_element (g d) \<and>
          (map_of d ''type'' = None \<longrightarrow> g d = ''Unknown'') \<and>
          (\<forall>s. map_of d ''type'' = Some (PStr s) \<longrightarrow> g d = s)"
    by metis
  have "c = chain_of (map base_element (map g ps))"
    unfolding c using g by (simp add: comp_def cong: map_cong)
  with g show ?thesis
    by (intro exI[of _ "map g ps"]) simp
qed

text \<open>The theorem at a chain of a \<^verbatim>\<open>Plain\<close> payload and a payload without \<^verbatim>\<open>type\<close>.\<close>

theorem chain_decode_gives_base_elements_witness:
  "MessageChain_init refuse_all
     (PList (map PDict [[(''type'', PStr ''Plain''), (''text'', PStr ''hi'')], [(''text'', PStr ''hi'')]])) =
     Inr (chain_of [base_element ''Plain'', base_element ''Unknown'']) \<and>
   (\<exists>ts. length ts = 2 \<and>
      chain_of [base_element ''Plain'', base_element ''Unknown''] = chain_of (map base_element ts) \<and>
      ts ! 0 = ''Plain'' \<and> ts ! 1 = ''Unknown'')"
proof -
  let ?ps = "[[(''type'', PStr ''Plain''), (''text'', PStr ''hi'')], [(''text'', PStr ''hi'')]]"
  let ?c = "chain_of [base_element ''Plain'', base_element ''Unknown'']"
  have d: "MessageChain_init refuse_all (PList (map PDict ?ps)) = Inr ?c"
    by (simp add: Element_validate validate_model_Element base_element_def chain_of_def
      MessageChain_init_list item_validate.simps)
  from chain_decode_gives_base_elements[OF d]
  obtain ts where ts: "length ts = length ?ps" "?c = chain_of (map base_element ts)"
     "\<forall>i < length ?ps.
              (map_of (?ps ! i) ''type'' = None \<longrightarrow> ts ! i = ''Unknown'') \<and>
              (\<forall>s. map_of (?ps ! i) ''type'' = Some (PStr s) \<longrightarrow> ts ! i = s)"
    by blast
  from ts(3)[rule_format, of 0] have "ts ! 0 = ''Plain''" by simp
  moreover from ts(3)[rule_format, of 1] have "ts ! 1 = ''Unknown''" by simp
  moreover from ts(1) have "length ts = 2" by simp
  ultimately show ?thesis using d ts(2) by blast
qed

lemma chain_decode_null_item:
  "MessageChain_init pdt (PList [PNone, PDict []]) =
     Inl (ValidationError [([Key ''__root__'', Idx 0], NoneIsNotAllowedError)] ''MessageChain'')"
  by (simp add: MessageChain_init_list item_validate.simps Element_validate validate_model_Element
      at_loc_def)

text \<open>
  C7, as the code has it. Decoding a sequence is all or nothing: when every element
  decodes, the chain holds the decoded elements; when any element fails, the whole
  decode fails with one \<^verbatim>\<open>ValidationError\<close> of \<^verbatim>\<open>MessageChain\<close> and no chain is produced.
  The decode does not stop at the first failure: the error lists the errors of every
  failing element, in the order of the sequence, each under \<^verbatim>\<open>__root__\<close> and the index of
  its element, so that its first entry is the first failing element's. An element is
  decoded by \<open>item_validate\<close>: \<^verbatim>\<open>None\<close> is refused as such, anything else goes to
  \<^verbatim>\<open>Element.validate\<close>.
\<close>

theorem chain_decode_all_or_nothing:
  "MessageChain_init pdt (PList xs) =
     (if list_all (\<lambda>x. \<not> isl (item_validate pdt (TModel Element) x)) xs
      then Inr (chain_of (map (\<lambda>x. projr (item_validate pdt (TModel Element) x)) xs))
      else Inl (ValidationError
             (concat (map (\<lambda>(i, x). case item_validate pdt (TModel Element) x of
                                      Inl e \<Rightarrow> at_loc (Key ''__root__'') (at_loc (Idx i) e)
                                    | Inr r \<Rightarrow> [])
                          (enumerate 0 xs)))
             ''MessageChain''))"
  by (rule chain_decode_eq)

text \<open>C7 as stated fails: with two failing elements (indices 0 and 2) the error
  reports both, not the first alone.\<close>

theorem chain_decode_not_fail_fast:
  "MessageChain_init refuse_all
     (PList [PDict [(''type'', PNone)], PDict [(''type'', PStr ''AtAll'')], PDict [(''type'', PList [])]]) =
   Inl (ValidationError
     [([Key ''__root__'', Idx 0, Key ''type''], NoneIsNotAllowedError),
      ([Key ''__root__'', Idx 2, Key ''type''], StrError)] ''MessageChain'')"
  by (simp add: MessageChain_init_list item_validate.simps Element_validate validate_model_Element at_loc_def)

text \<open>
  C2, as the code has it. No tag is refused: an object whose \<^verbatim>\<open>type\<close> is absent decodes
  to the base element with the type \<^verbatim>\<open>"Unknown"\<close>, and an object with any \<^verbatim>\<open>type\<close> string,
  one of the declared tags or not, decodes to the base element with that string.
\<close>

theorem element_tag_never_refused:
  "(map_of d ''type'' = None \<longrightarrow>
      validate_type pdt (TModel Element) (PDict d) = Inr (base_element ''Unknown'')) \<and>
   (map_of d ''type'' = Some (PStr s) \<longrightarrow>
      validate_type pdt (TModel Element) (PDict d) = Inr (base_element s))"
  by (simp add: Element_validate validate_model_Element base_element_def)

theorem element_tag_never_refused_witness:
  "validate_type refuse_all (TModel Element) (PDict [(''type'', PStr ''Bogus'')]) = Inr (base_element ''Bogus'') \<and>
   validate_type refuse_all (TModel Element) (PDict []) = Inr (base_element ''Unknown'')"
  using element_tag_never_refused[of "[(''type'', PStr ''Bogus'')]" refuse_all "''Bogus''"]
        element_tag_never_refused[of "[]" refuse_all "''Bogus''"]
  by simp

text \<open>C2 as stated fails: an object with the tag \<^verbatim>\<open>NoSuchKind\<close> and an object without
  \<^verbatim>\<open>type\<close> decode, alone and inside a chain.\<close>

theorem unknown_tag_is_accepted:
  "validate_type refuse_all (TModel Element) (PDict [(''type'', PStr ''NoSuchKind''), (''x'', PInt 1)]) =
     Inr (base_element ''NoSuchKind'') \<and>
   validate_type refuse_all (TModel Element) (PDict [(''x'', PInt 1)]) = Inr (base_element ''Unknown'') \<and>
   MessageChain_init refuse_all (PList [PDict [(''type'', PStr ''NoSuchKind'')], PDict []]) =
     Inr (chain_of [base_element ''NoSuchKind'', base_element ''Unknown''])"
  by (simp add: Element_validate validate_model_Element base_element_def chain_of_def
      MessageChain_init_list item_validate.simps)

text \<open>
  C8, as the code has it. A sequence of payloads that decodes gives a chain with one
  element per payload, the element at each index being the decoding of the payload at
  that index, and the export lists one object per element in the same order: nothing is
  reordered, merged or left out. The exported objects hold the \<^verbatim>\<open>type\<close> alone, so the
  export is not the array that was decoded when a payload had another field.
\<close>

theorem chain_order_preserved:
  assumes "MessageChain_init pdt (PList (map PDict ps)) = Inr c"
  shows "\<exists>ts. length ts = length ps \<and>
           (\<forall>i < length ps. validate_type pdt (TModel Element) (PDict (ps ! i)) = Inr (base_element (ts ! i))) \<and>
           c = chain_of (map base_element ts) \<and>
           get_value ba c = PList (map (\<lambda>t. PDict [(''type'', PStr t)]) ts)"
proof -
  let ?f = "\<lambda>d. validate_type pdt (TModel Element) (PDict d)"
  from chain_decode_dicts[OF assms]
  have ok: "list_all (\<lambda>d. \<not> isl (?f d)) ps" and c: "c = chain_of (map (\<lambda>d. projr (?f d)) ps)"
    by simp_all
  have "\<forall>d \<in> set ps. \<exists>t. ?f d = Inr (base_element t)"
  proof
    fix d assume "d \<in> set ps"
    with ok have "\<not> isl (?f d)" by (simp add: list_all_iff)
    then obtain e where e: "?f d = Inr e" by (cases "?f d") auto
    from Element_dict_result[OF e] e
    show "\<exists>t. ?f d = Inr (base_element t)" by auto
  qed
  then obtain g where g: "\<forall>d \<in> set ps. ?f d = Inr (base_element (g d))"
    by metis
  then have c': "c = chain_of (map base_element (map g ps))"
    unfolding c by (simp add: comp_def cong: map_cong)
  have enc: "get_value ba c = PList (map (\<lambda>t. PDict [(''type'', PStr t)]) (map g ps))"
    unfolding c' by (rule get_value_chain_of_base)
  have "\<forall>i < length ps. ?f (ps ! i) = Inr (base_element (map g ps ! i))"
    using g by simp
  with c' enc show ?thesis
    by (intro exI[of _ "map g ps"]) simp
qed

text \<open>The theorem at the chain of the claim: two elements in the order of the
  payloads, exported in that order.\<close>

theorem chain_order_preserved_witness:
  "\<exists>ts. length ts = 2 \<and>
     chain_of [base_element ''Plain'', base_element ''AtAll''] = chain_of (map base_element ts) \<and>
     get_value False (chain_of [base_element ''Plain'', base_element ''AtAll'']) =
       PList (map (\<lambda>t. PDict [(''type'', PStr t)]) ts)"
proof -
  let ?ps = "[[(''type'', PStr ''Plain''), (''text'', PStr ''hi'')], [(''type'', PStr ''AtAll'')]]"
  let ?c = "chain_of [base_element ''Plain'', base_element ''AtAll'']"
  have d: "MessageChain_init refuse_all (PList (map PDict ?ps)) = Inr ?c"
    by (simp add: Element_validate validate_model_Element base_element_def chain_of_def
      MessageChain_init_list item_validate.simps)
  from chain_order_preserved[OF d, of False]
  obtain ts where "length ts = length ?ps" "?c = chain_of (map base_element ts)"
    "get_value False ?c = PList (map (\<lambda>t. PDict [(''type'', PStr t)]) ts)"
    by blast
  then show ?thesis by (intro exI[of _ ts]) simp
qed

text \<open>C8 as stated fails at its own example: the chain decodes to two elements, and
  the export has lost the \<^verbatim>\<open>text\<close> of the first payload.\<close>

theorem chain_reencode_drops_fields:
  "MessageChain_init refuse_all
      (PList [PDict [(''type'', PStr ''Plain''), (''text'', PStr ''hi'')], PDict [(''type'', PStr ''AtAll'')]]) =
     Inr (chain_of [base_element ''Plain'', base_element ''AtAll'']) \<and>
   get_value False (chain_of [base_element ''Plain'', base_element ''AtAll'']) =
     PList [PDict [(''type'', PStr ''Plain'')], PDict [(''type'', PStr ''AtAll'')]] \<and>
   get_value False (chain_of [base_element ''Plain'', base_element ''AtAll'']) \<noteq>
     PList [PDict [(''type'', PStr ''Plain''), (''text'', PStr ''hi'')], PDict [(''type'', PStr ''AtAll'')]]"
  using get_value_chain_of_base[of False "[''Plain'', ''AtAll'']"]
  by (simp add: Element_validate validate_model_Element base_element_def chain_of_def
      MessageChain_init_list item_validate.simps)

section \<open>Decoding by a variant's own class\<close>

lemma init_eq:
  "init pdt (Model n bs fs) d =
     (case validate_fields pdt fs d of
        ([], vals) \<Rightarrow> Inr (PModel n vals)
      | (e # es, vals) \<Rightarrow> Inl (ValidationError (e # es) n))"
  by (simp add: init_def split: prod.splits list.splits)

lemma init_errors:
  assumes "fst (validate_fields pdt (mfields m) d) \<noteq> []"
  shows "init pdt m d = Inl (ValidationError (fst (validate_fields pdt (mfields m) d)) (mname m))"
  using assms by (cases m) (auto simp: init_eq split: prod.splits list.splits)

lemma validate_fields_missing:
  "Field n a t True an dv \<in> set fs \<Longrightarrow> map_of d a = None \<Longrightarrow>
     ([Key a], MissingError) \<in> set (fst (validate_fields pdt fs d))"
proof (induction fs)
  case Nil
  then show ?case by simp
next
  case (Cons f fs)
  then show ?case
    by (cases f) (auto split: prod.splits option.splits sum.splits)
qed

lemma validate_fields_refused:
  "Field n a t r an dv \<in> set fs \<Longrightarrow> map_of d a = Some v \<Longrightarrow>
   field_validate pdt (Field n a t r an dv) v = Inl e \<Longrightarrow>
     set e \<subseteq> set (fst (validate_fields pdt fs d))"
proof (induction fs)
  case Nil
  then show ?case by simp
next
  case (Cons f fs)
  show ?case
  proof (cases "f = Field n a t r an dv")
    case True
    with Cons.prems show ?thesis
      by (auto simp del: field_validate.simps split: prod.splits)
  next
    case False
    with Cons have "set e \<subseteq> set (fst (validate_fields pdt fs d))" by simp
    then show ?thesis
      by (cases f) (auto simp del: field_validate.simps split: prod.splits option.splits sum.splits)
  qed
qed

lemma field_validate_refuses:
  "field_validate pdt (Field n a t r False dv) PNone = Inl [([Key a], NoneIsNotAllowedError)]"
  "field_validate pdt (Field n a TStr r an dv) (PList xs) = Inl [([Key a], StrError)]"
  "field_validate pdt (Field n a TStr r an dv) (PDict kvs) = Inl [([Key a], StrError)]"
  "field_validate pdt (Field n a TInt r an dv) (PList xs) = Inl [([Key a], IntegerError)]"
  "field_validate pdt (Field n a TInt r an dv) (PDict kvs) = Inl [([Key a], IntegerError)]"
  by (simp_all add: lift_result_def at_loc_def)

lemma int_of_str_12: "int_of_str ''12'' = Some 12"
  by (simp add: int_of_str_def int_space_def digits_value_def is_digit_def digit_val_def)


lemma type_field_first:
  assumes "validate_model pdt (Model n bs (defaulted ''type'' TStr (PStr tag) # fs)) d = Inr v"
  shows "(map_of d ''type'' = None \<longrightarrow> (\<exists>rest. v = PModel n ((''type'', PStr tag) # rest))) \<and>
         (\<forall>s. map_of d ''type'' = Some (PStr s) \<longrightarrow> (\<exists>rest. v = PModel n ((''type'', PStr s) # rest)))"
  using assms
  by (auto simp: field_defs lift_result_def split: prod.splits list.splits option.splits)

lemma variants_shape:
  assumes "m \<in> set variants"
  shows "\<exists>fs. m = Model (mname m) [''Element''] (defaulted ''type'' TStr (PStr (mname m)) # fs)"
  using assms unfolding variants_def
  by (auto simp: Plain_def Source_def Quote_def At_def AtAll_def Face_def
      MarketFace_def Xml_def Json_def App_def Poke_def Dice_def MusicShare_def Forward_def
      File_def MiraiCode_def Image_def FlashImage_def Voice_def)

lemma Json_has_no_required_field: "Field n a t True an dv \<notin> set (mfields Json)"
  by (simp add: Json_def field_defs)

text \<open>
  C6, as the code has it. For every variant and every payload that lacks the key of a
  required field, the construction fails: the \<^verbatim>\<open>ValidationError\<close> names the class and
  lists the missing error under the field's key. When the key is there and the
  field's validator refuses the value, the construction fails with the validator's
  error under the field's key. A value of another shape is not refused as such: the
  validators convert what they can (\<open>int_validator\<close> reads a \<^verbatim>\<open>str\<close> of digits,
  \<open>str_validator\<close> writes an \<^verbatim>\<open>int\<close> out). The required fields are those the classes
  declare so. The content of \<^verbatim>\<open>Json\<close> is not among them: it is declared with the default
  \<^verbatim>\<open>None\<close>, and a \<^verbatim>\<open>Json\<close> payload without \<^verbatim>\<open>json\<close> decodes with the content \<^verbatim>\<open>None\<close>.
\<close>

theorem required_field_errors:
  assumes "m \<in> set variants" and "Field n a t True an dv \<in> set (mfields m)"
  shows "(map_of d a = None \<longrightarrow>
            (\<exists>es. init pdt m d = Inl (ValidationError es (mname m)) \<and>
                  ([Key a], MissingError) \<in> set es)) \<and>
         (\<forall>v e. map_of d a = Some v \<and> field_validate pdt (Field n a t True an dv) v = Inl e \<and> e \<noteq> [] \<longrightarrow>
            (\<exists>es. init pdt m d = Inl (ValidationError es (mname m)) \<and> set e \<subseteq> set es))"
proof (intro conjI impI allI)
  assume "map_of d a = None"
  with assms(2) have in_es: "([Key a], MissingError) \<in> set (fst (validate_fields pdt (mfields m) d))"
    by (rule validate_fields_missing)
  then have "fst (validate_fields pdt (mfields m) d) \<noteq> []" by auto
  from init_errors[OF this] in_es
  show "\<exists>es. init pdt m d = Inl (ValidationError es (mname m)) \<and> ([Key a], MissingError) \<in> set es"
    by blast
next
  fix v e
  assume h: "map_of d a = Some v \<and> field_validate pdt (Field n a t True an dv) v = Inl e \<and> e \<noteq> []"
  then have "map_of d a = Some v" "field_validate pdt (Field n a t True an dv) v = Inl e"
    by simp_all
  from validate_fields_refused[OF assms(2) this]
  have sub: "set e \<subseteq> set (fst (validate_fields pdt (mfields m) d))" .
  with h have "fst (validate_fields pdt (mfields m) d) \<noteq> []" by (cases e) auto
  from init_errors[OF this] sub
  show "\<exists>es. init pdt m d = Inl (ValidationError es (mname m)) \<and> set e \<subseteq> set es"
    by blast
qed

text \<open>The theorem at a \<^verbatim>\<open>Plain\<close> payload without \<^verbatim>\<open>text\<close> and at a \<^verbatim>\<open>MarketFace\<close>
  payload whose \<^verbatim>\<open>id\<close> is a list.\<close>

theorem required_field_errors_witness:
  "(\<exists>es. init refuse_all Plain [(''type'', PStr ''Plain'')] = Inl (ValidationError es ''Plain'') \<and>
          ([Key ''text''], MissingError) \<in> set es) \<and>
   (\<exists>es. init refuse_all MarketFace [(''id'', PList []), (''name'', PStr ''x'')] =
            Inl (ValidationError es ''MarketFace'') \<and>
          ([Key ''id''], IntegerError) \<in> set es) \<and>
   (\<exists>es. init refuse_all Forward [(''nodeList'', PList [PNone])] =
            Inl (ValidationError es ''Forward'') \<and>
          ([Key ''nodeList'', Idx 0], NoneIsNotAllowedError) \<in> set es)"
proof -
  have f3: "Field ''nodeList'' ''nodeList'' (TList (TModel ForwardNode)) True False PNone \<in> set (mfields Forward)"
    by (simp add: Forward_def field_defs)
  have n3: "mname Forward = ''Forward''" by (simp add: Forward_def)
  have v3: "Forward \<in> set variants" by (simp add: variants_def)
  from required_field_errors[OF v3 f3, of "[(''nodeList'', PList [PNone])]" refuse_all]
  have "\<forall>v e. v = PList [PNone] \<and>
          field_validate refuse_all (Field ''nodeList'' ''nodeList'' (TList (TModel ForwardNode)) True False PNone) v = Inl e \<and> e \<noteq> [] \<longrightarrow>
            (\<exists>es. init refuse_all Forward [(''nodeList'', PList [PNone])] = Inl (ValidationError es ''Forward'') \<and> set e \<subseteq> set es)"
    by (simp add: n3)
  from this[rule_format, of "PList [PNone]" "[([Key ''nodeList'', Idx 0], NoneIsNotAllowedError)]"]
  have c: "\<exists>es. init refuse_all Forward [(''nodeList'', PList [PNone])] =
            Inl (ValidationError es ''Forward'') \<and>
          ([Key ''nodeList'', Idx 0], NoneIsNotAllowedError) \<in> set es"
    by (simp add: item_validate.simps at_loc_def)
  have f1: "Field ''text'' ''text'' TStr True False PNone \<in> set (mfields Plain)"
    by (simp add: Plain_def field_defs)
  have f2: "Field ''id'' ''id'' TInt True False PNone \<in> set (mfields MarketFace)"
    by (simp add: MarketFace_def field_defs)
  have n1: "mname Plain = ''Plain''" and n2: "mname MarketFace = ''MarketFace''"
    by (simp_all add: Plain_def MarketFace_def)
  have v1: "Plain \<in> set variants" and v2: "MarketFace \<in> set variants"
    by (simp_all add: variants_def)
  from required_field_errors[OF v1 f1, of "[(''type'', PStr ''Plain'')]" refuse_all]
  have a: "\<exists>es. init refuse_all Plain [(''type'', PStr ''Plain'')] = Inl (ValidationError es ''Plain'') \<and>
          ([Key ''text''], MissingError) \<in> set es"
    by (simp add: n1)
  from required_field_errors[OF v2 f2, of "[(''id'', PList []), (''name'', PStr ''x'')]" refuse_all]
  have "\<forall>v e. v = PList [] \<and> field_validate refuse_all (Field ''id'' ''id'' TInt True False PNone) v = Inl e \<and> e \<noteq> [] \<longrightarrow>
            (\<exists>es. init refuse_all MarketFace [(''id'', PList []), (''name'', PStr ''x'')] = Inl (ValidationError es ''MarketFace'') \<and> set e \<subseteq> set es)"
    by (simp add: n2)
  from this[rule_format, of "PList []" "[([Key ''id''], IntegerError)]"]
  have b: "\<exists>es. init refuse_all MarketFace [(''id'', PList []), (''name'', PStr ''x'')] =
            Inl (ValidationError es ''MarketFace'') \<and> ([Key ''id''], IntegerError) \<in> set es"
    by (simp add: lift_result_def at_loc_def)
  from a b c show ?thesis by blast
qed

text \<open>C6 as stated fails twice. A \<^verbatim>\<open>MarketFace\<close> payload whose \<^verbatim>\<open>id\<close> is the string
  \<^verbatim>\<open>"12"\<close> and whose \<^verbatim>\<open>name\<close> is the number 7 decodes, with both values converted. A
  \<^verbatim>\<open>Json\<close> payload without its content decodes, with the content \<^verbatim>\<open>None\<close>.\<close>

theorem wrong_shape_is_converted:
  "init refuse_all MarketFace [(''type'', PStr ''MarketFace''), (''id'', PStr ''12''), (''name'', PInt 7)] =
     Inr (PModel ''MarketFace'' [(''type'', PStr ''MarketFace''), (''id'', PInt 12), (''name'', PStr ''7'')]) \<and>
   init refuse_all Json [(''type'', PStr ''Json'')] =
     Inr (PModel ''Json'' [(''type'', PStr ''Json''), (''Json'', PNone)])"
  by (simp add: init_def MarketFace_def Json_def field_defs lift_result_def int_of_str_12
      str_of_int_def)

text \<open>
  C4, as the code has it. The enumerated field of \<^verbatim>\<open>Poke\<close> is called \<^verbatim>\<open>name\<close>. A payload
  with a \<^verbatim>\<open>type\<close> string and a \<^verbatim>\<open>name\<close> string decodes exactly when the name is one of
  the 16 values of \<^verbatim>\<open>PokeMethods\<close>; any other string fails with the enumeration error,
  which carries the allowed values.
\<close>

theorem poke_name_is_the_enumerated_field:
  assumes "map_of d ''type'' = Some (PStr t)" and "map_of d ''name'' = Some (PStr s)"
  shows "init pdt Poke d =
           (if s \<in> set PokeMethods
            then Inr (PModel ''Poke'' [(''type'', PStr t), (''name'', PEnum ''PokeMethods'' s)])
            else Inl (ValidationError [([Key ''name''], EnumMemberError PokeMethods)] ''Poke'')) \<and>
         length PokeMethods = 16 \<and> distinct PokeMethods"
proof -
  have "length PokeMethods = 16 \<and> distinct PokeMethods"
    by (simp add: PokeMethods_def)
  moreover have "init pdt Poke d =
           (if s \<in> set PokeMethods
            then Inr (PModel ''Poke'' [(''type'', PStr t), (''name'', PEnum ''PokeMethods'' s)])
            else Inl (ValidationError [([Key ''name''], EnumMemberError PokeMethods)] ''Poke''))"
    using assms by (simp add: init_def Poke_def field_defs lift_result_def at_loc_def)
  ultimately show ?thesis by simp
qed

theorem poke_name_is_the_enumerated_field_witness:
  "init refuse_all Poke [(''type'', PStr ''Poke''), (''name'', PStr ''DianZan'')] =
     Inr (PModel ''Poke'' [(''type'', PStr ''Poke''), (''name'', PEnum ''PokeMethods'' ''DianZan'')]) \<and>
   init refuse_all Poke [(''type'', PStr ''Poke''), (''name'', PStr ''NotARealMethod'')] =
     Inl (ValidationError [([Key ''name''], EnumMemberError PokeMethods)] ''Poke'')"
  using poke_name_is_the_enumerated_field[of "[(''type'', PStr ''Poke''), (''name'', PStr ''DianZan'')]" "''Poke''" "''DianZan''" refuse_all]
        poke_name_is_the_enumerated_field[of "[(''type'', PStr ''Poke''), (''name'', PStr ''NotARealMethod'')]" "''Poke''" "''NotARealMethod''" refuse_all]
  by (simp add: PokeMethods_def)

text \<open>C4 as stated fails: \<^verbatim>\<open>Poke\<close> has no field \<^verbatim>\<open>method\<close>. The key is ignored, and
  both payloads of the claim fail alike, because \<^verbatim>\<open>name\<close> is missing.\<close>

theorem poke_method_key_is_ignored:
  "init refuse_all Poke [(''type'', PStr ''Poke''), (''method'', PStr ''DianZan'')] =
     Inl (ValidationError [([Key ''name''], MissingError)] ''Poke'') \<and>
   init refuse_all Poke [(''type'', PStr ''Poke''), (''method'', PStr ''NotARealMethod'')] =
     Inl (ValidationError [([Key ''name''], MissingError)] ''Poke'')"
  by (simp add: init_def Poke_def field_defs lift_result_def)




text \<open>
  C9, as the code has it. The \<^verbatim>\<open>type\<close> of a variant is an ordinary \<^verbatim>\<open>str\<close> field whose
  default is the variant's tag, which is the name of its class. Decoding a payload
  without \<^verbatim>\<open>type\<close> by the variant's class gives a value whose \<^verbatim>\<open>type\<close> is the tag; a
  \<^verbatim>\<open>type\<close> string in the payload is stored in its place.
\<close>

theorem variant_type_defaults_to_tag:
  assumes "m \<in> set variants" and "init pdt m d = Inr v"
  shows "(map_of d ''type'' = None \<longrightarrow>
            (\<exists>rest. v = PModel (mname m) ((''type'', PStr (mname m)) # rest))) \<and>
         (\<forall>s. map_of d ''type'' = Some (PStr s) \<longrightarrow>
            (\<exists>rest. v = PModel (mname m) ((''type'', PStr s) # rest)))"
proof -
  from variants_shape[OF assms(1)] obtain fs where
    m: "m = Model (mname m) [''Element''] (defaulted ''type'' TStr (PStr (mname m)) # fs)" by blast
  from assms(2) have "validate_model pdt m d = Inr v"
    by (simp add: init_def split: sum.splits)
  with m have "validate_model pdt (Model (mname m) [''Element''] (defaulted ''type'' TStr (PStr (mname m)) # fs)) d = Inr v"
    by simp
  from type_field_first[OF this] show ?thesis .
qed

theorem variant_type_defaults_to_tag_witness:
  "(\<exists>rest. PModel ''Plain'' [(''type'', PStr ''Plain''), (''text'', PStr ''hi'')] =
       PModel ''Plain'' ((''type'', PStr ''Plain'') # rest)) \<and>
   init refuse_all Plain [(''text'', PStr ''hi'')] =
     Inr (PModel ''Plain'' [(''type'', PStr ''Plain''), (''text'', PStr ''hi'')])"
proof -
  have v: "Plain \<in> set variants" by (simp add: variants_def)
  have i: "init refuse_all Plain [(''text'', PStr ''hi'')] =
     Inr (PModel ''Plain'' [(''type'', PStr ''Plain''), (''text'', PStr ''hi'')])"
    by (simp add: init_def Plain_def field_defs lift_result_def)
  have n: "mname Plain = ''Plain''" by (simp add: Plain_def)
  from variant_type_defaults_to_tag[OF v i] i show ?thesis
    by (simp add: n)
qed

text \<open>C9 as stated fails: a \<^verbatim>\<open>Plain\<close> value whose \<^verbatim>\<open>type\<close> is \<^verbatim>\<open>"Quote"\<close>.\<close>

theorem variant_type_can_differ_from_tag:
  "init refuse_all Plain [(''type'', PStr ''Quote''), (''text'', PStr ''hi'')] =
     Inr (PModel ''Plain'' [(''type'', PStr ''Quote''), (''text'', PStr ''hi'')])"
  by (simp add: init_def Plain_def field_defs lift_result_def)

section \<open>Exporting constructed values\<close>

lemma no_models_map_of: "no_models_items d \<Longrightarrow> map_of d k = Some r \<Longrightarrow> no_models r"
  by (induction d) (auto split: if_splits)

lemma get_value_no_models:
  "no_models (get_value ba v)"
  "no_models_list (get_values ba xs)"
  "no_models_items (get_items ba key d)"
  by (induction ba v and ba xs and ba key d rule: get_value_get_values_get_items.induct)
     (auto simp: Let_def split: option.splits dest: no_models_map_of)

lemma length_get_values: "length (get_values ba xs) = length xs"
  by (induction xs) simp_all

lemmas class_defs = Element_def Plain_def Source_def Quote_def At_def AtAll_def Face_def
      MarketFace_def Xml_def Json_def App_def Poke_def Dice_def MusicShare_def Forward_def
      File_def MiraiCode_def Image_def FlashImage_def Voice_def ForwardNode_def
      MultimediaElement_def MessageChain_def

lemma alias_of_type:
  "m \<in> set (Element # variants) \<Longrightarrow> alias_of (mname m) ''type'' = ''type''"
  unfolding variants_def
  by (auto simp: alias_of_def class_of_def classes_def variants_def class_defs field_defs)

lemma type_field_str:
  assumes "validate_model pdt (Model n bs (defaulted ''type'' TStr (PStr tag) # fs)) d = Inr v"
  shows "\<exists>t rest. v = PModel n ((''type'', PStr t) # rest)"
  using assms
  by (auto simp: field_defs lift_result_def at_loc_def split: prod.splits list.splits
      option.splits sum.splits if_splits dest: str_validator_Inr)

lemma elements_shape:
  assumes "m \<in> set (Element # variants)"
  shows "\<exists>tag fs. m = Model (mname m) (mbases m) (defaulted ''type'' TStr (PStr tag) # fs)"
  using assms unfolding variants_def
  by (auto simp: class_defs)

section \<open>Decoding an export\<close>

lemma get_items_map: "get_items ba key d = map (\<lambda>(k, v). (key k, get_value ba v)) d"
  by (induction d) auto

lemma get_values_map: "get_values ba xs = map (get_value ba) xs"
  by (induction xs) auto

lemma well_typed_fields_names: "well_typed_fields fs vals \<Longrightarrow> map fst vals = map fname fs"
proof (induction fs arbitrary: vals)
  case Nil
  then show ?case by simp
next
  case (Cons f fs)
  then show ?case by (cases f; cases vals) auto
qed

lemma find_by_name:
  "distinct (map fname fs) \<Longrightarrow> f \<in> set fs \<Longrightarrow> find (\<lambda>g. fname g = fname f) fs = Some f"
  by (induction fs) (auto simp: image_iff)

lemma alias_of_field:
  "class_of n = Some (Model n bs fs) \<Longrightarrow> distinct (map fname fs) \<Longrightarrow> f \<in> set fs \<Longrightarrow>
     alias_of n (fname f) = falias f"
  by (simp add: alias_of_def find_by_name)

lemma export_items:
  assumes "class_of n = Some (Model n bs fs)" "distinct (map fname fs)"
    "ba \<or> map falias fs = map fname fs" "well_typed_fields fs vals"
  shows "get_items ba (if ba then alias_of n else (\<lambda>k. k)) vals =
           zip (map falias fs) (map (\<lambda>p. get_value ba (snd p)) vals)"
proof -
  let ?key = "if ba then alias_of n else (\<lambda>k. k)"
  from assms(4) have names: "map fst vals = map fname fs" by (rule well_typed_fields_names)
  have "map ?key (map fname fs) = map falias fs"
  proof (cases ba)
    case True
    then show ?thesis using assms(1,2) by (simp add: alias_of_field)
  next
    case False
    with assms(3) show ?thesis by simp
  qed
  moreover have "map (\<lambda>p. ?key (fst p)) vals = map ?key (map fst vals)"
    by simp
  ultimately have keys: "map (\<lambda>p. ?key (fst p)) vals = map falias fs"
    using names by simp
  have "get_items ba ?key vals = zip (map (\<lambda>p. ?key (fst p)) vals) (map (\<lambda>p. get_value ba (snd p)) vals)"
    unfolding get_items_map by (induction vals) auto
  with keys show ?thesis by simp
qed

lemma well_typed_None: "\<not> well_typed t PNone"
proof (cases t)
  case (TModel m)
  then show ?thesis by (cases m) simp
qed simp_all

lemma well_typed_items_all: "well_typed_items t xs \<Longrightarrow> x \<in> set xs \<Longrightarrow> well_typed t x"
  by (induction xs) auto

lemma items_roundtrip:
  "(\<And>x. x \<in> set xs \<Longrightarrow> item_validate pdt t (get_value ba x) = Inr x) \<Longrightarrow>
     validate_items pdt t i (get_values ba xs) = ([], xs)"
  by (induction xs arbitrary: i) simp_all

lemma fields_roundtrip:
  assumes "\<And>f v. f \<in> set fs \<Longrightarrow> well_typed (ftyp f) v \<Longrightarrow>
             validate_type pdt (ftyp f) (get_value ba v) = Inr v \<and> get_value ba v \<noteq> PNone"
    and "well_typed_fields fs vals"
    and "list_all2 (\<lambda>f p. map_of D (falias f) = Some (get_value ba (snd p))) fs vals"
  shows "validate_fields pdt fs D = ([], vals)"
  using assms
proof (induction fs arbitrary: vals)
  case Nil
  then show ?case by simp
next
  case (Cons f fs)
  obtain n a t r an d where f: "f = Field n a t r an d" by (cases f)
  from Cons.prems(3) obtain p rest where vals: "vals = p # rest"
    by (cases vals) auto
  obtain k v where p: "p = (k, v)" by (cases p)
  from Cons.prems(2) have k: "k = n" and v: "if v = PNone then an else well_typed t v"
    and wt: "well_typed_fields fs rest"
    by (simp_all add: f vals p)
  from Cons.prems(3) have look: "map_of D a = Some (get_value ba v)"
    and look': "list_all2 (\<lambda>f p. map_of D (falias f) = Some (get_value ba (snd p))) fs rest"
    by (simp_all add: f vals p)
  have tail: "validate_fields pdt fs D = ([], rest)"
  proof (rule Cons.IH[OF _ wt look'])
    fix g w assume "g \<in> set fs" "well_typed (ftyp g) w"
    then show "validate_type pdt (ftyp g) (get_value ba w) = Inr w \<and> get_value ba w \<noteq> PNone"
      using Cons.prems(1)[of g w] by simp
  qed
  have "field_validate pdt (Field n a t r an d) (get_value ba v) = Inr v"
  proof (cases "v = PNone")
    case True
    with v show ?thesis by simp
  next
    case False
    with v have "well_typed t v" by simp
    with Cons.prems(1)[of f v] have "validate_type pdt t (get_value ba v) = Inr v"
      "get_value ba v \<noteq> PNone" by (simp_all add: f)
    then show ?thesis by simp
  qed
  with tail look show ?case
    by (simp add: f vals p k del: field_validate.simps)
qed

lemma root_ok_cases:
  "root_ok fs \<Longrightarrow>
     (\<exists>t r d. fs = [Field ''__root__'' ''__root__'' (TList t) r False d]) \<or>
     (''__root__'' \<notin> set (map fname fs) \<and> ''__root__'' \<notin> set (map falias fs))"
  by (induction fs rule: root_ok.induct) auto

lemma export_lookup:
  assumes "distinct (map falias fs)" "well_typed_fields fs vals"
  shows "list_all2 (\<lambda>f p. map_of (zip (map falias fs) (map (\<lambda>p. get_value ba (snd p)) vals)) (falias f) =
            Some (get_value ba (snd p))) fs vals"
proof -
  from assms(2) have "map fst vals = map fname fs" by (rule well_typed_fields_names)
  then have len: "length vals = length fs" by (metis length_map)
  show ?thesis
    unfolding list_all2_conv_all_nth
  proof (intro conjI allI impI)
    show "length fs = length vals" using len by simp
  next
    fix i assume i: "i < length fs"
    have "map_of (zip (map falias fs) (map (\<lambda>p. get_value ba (snd p)) vals)) (map falias fs ! i) =
        Some (map (\<lambda>p. get_value ba (snd p)) vals ! i)"
      by (rule map_of_zip_nth) (use len i assms(1) in simp_all)
    with i len show "map_of (zip (map falias fs) (map (\<lambda>p. get_value ba (snd p)) vals)) (falias (fs ! i)) =
        Some (get_value ba (snd (vals ! i)))" by simp
  qed
qed

lemma wf_fields_all: "wf_fields ba fs \<Longrightarrow> f \<in> set fs \<Longrightarrow> wf_type ba (ftyp f)"
proof (induction fs)
  case Nil
  then show ?case by simp
next
  case (Cons g fs)
  then show ?case by (cases g) auto
qed

lemma model_export:
  assumes cls: "class_of n = Some (Model n bs fs)"
    and dn: "distinct (map fname fs)" and da: "distinct (map falias fs)"
    and al: "ba \<or> map falias fs = map fname fs" and ro: "root_ok fs"
    and wt: "well_typed_fields fs vals"
  shows "\<not> isinstance (get_value ba (PModel n vals)) c \<and>
         get_value ba (PModel n vals) \<noteq> PNone \<and>
         dict_of_value (enforce_dict_if_root fs (get_value ba (PModel n vals))) =
           Inr (zip (map falias fs) (map (\<lambda>p. get_value ba (snd p)) vals))"
proof -
  let ?D = "zip (map falias fs) (map (\<lambda>p. get_value ba (snd p)) vals)"
  have items: "get_items ba (if ba then alias_of n else (\<lambda>k. k)) vals = ?D"
    using cls dn al wt by (rule export_items)
  have gv: "get_value ba (PModel n vals) = (case map_of ?D ''__root__'' of Some r \<Rightarrow> r | None \<Rightarrow> PDict ?D)"
    using items by (simp add: Let_def)
  from root_ok_cases[OF ro] show ?thesis
  proof
    assume "\<exists>t r d. fs = [Field ''__root__'' ''__root__'' (TList t) r False d]"
    then obtain t r d where fs: "fs = [Field ''__root__'' ''__root__'' (TList t) r False d]" by blast
    from wt obtain v where vals: "vals = [(''__root__'', v)]" and v: "v \<noteq> PNone" "well_typed (TList t) v"
      unfolding fs by (cases vals) (auto split: if_splits)
    from v(2) obtain xs where xs: "v = PList xs" by (cases v) auto
    have D: "?D = [(''__root__'', PList (get_values ba xs))]"
      by (simp add: fs vals xs)
    have "get_value ba (PModel n vals) = PList (get_values ba xs)"
      unfolding gv D by simp
    moreover have "custom_root fs" by (simp add: fs custom_root_def)
    ultimately show ?thesis
      unfolding D by (simp add: enforce_dict_if_root_def)
  next
    assume no: "''__root__'' \<notin> set (map fname fs) \<and> ''__root__'' \<notin> set (map falias fs)"
    have "''__root__'' \<notin> fst ` set ?D"
    proof
      assume "''__root__'' \<in> fst ` set ?D"
      then obtain p where "p \<in> set ?D" "fst p = ''__root__''" by auto
      then have "''__root__'' \<in> set (map falias fs)"
        by (metis prod.collapse set_zip_leftD)
      with no show False by simp
    qed
    then have "map_of ?D ''__root__'' = None"
      by (simp add: map_of_eq_None_iff)
    then have "get_value ba (PModel n vals) = PDict ?D"
      unfolding gv by simp
    moreover have "\<not> custom_root fs" using no by (simp add: custom_root_def)
    ultimately show ?thesis
      by (simp add: enforce_dict_if_root_def)
  qed
qed

lemma get_value_keeps_shape:
  assumes "wf_type ba t" "well_typed t v"
  shows "get_value ba v \<noteq> PNone"
proof (cases t)
  case (TModel m)
  obtain n bs fs where m: "m = Model n bs fs" by (cases m)
  from assms(2) obtain vals where v: "v = PModel n vals" and wt: "well_typed_fields fs vals"
    unfolding TModel m by (cases v) auto
  from assms(1) model_export[of n bs fs ba vals, OF _ _ _ _ _ wt] show ?thesis
    unfolding TModel m v by simp
next
  case (TList t')
  with assms(2) show ?thesis by (cases v) auto
qed (use assms(2) in \<open>cases v; simp\<close>)+

lemma export_roundtrip_schema:
  "wf_type ba t \<longrightarrow> (\<forall>v. well_typed t v \<longrightarrow> validate_type pdt t (get_value ba v) = Inr v)"
  "wf_type ba (ftyp f) \<longrightarrow> (\<forall>v. well_typed (ftyp f) v \<longrightarrow> validate_type pdt (ftyp f) (get_value ba v) = Inr v)"
  "wf_type ba (TModel m) \<longrightarrow> (\<forall>v. well_typed (TModel m) v \<longrightarrow> validate_type pdt (TModel m) (get_value ba v) = Inr v)"
proof (induction t and f and m)
  case TStr
  show ?case by (auto simp: lift_result_def split: pyval.splits)
next
  case TInt
  show ?case by (auto simp: lift_result_def split: pyval.splits)
next
  case TDatetime
  show ?case by (auto simp: lift_result_def split: pyval.splits)
next
  case (TEnum E vals)
  show ?case by (auto simp: lift_result_def split: pyval.splits)
next
  case (TList t)
  show ?case
  proof (intro impI allI)
    fix v assume wf: "wf_type ba (TList t)" and wt: "well_typed (TList t) v"
    from wt obtain xs where v: "v = PList xs" and items: "well_typed_items t xs"
      by (cases v) auto
    have "validate_items pdt t 0 (get_values ba xs) = ([], xs)"
    proof (rule items_roundtrip)
      fix x assume "x \<in> set xs"
      with items have wt: "well_typed t x" by (rule well_typed_items_all)
      from wf have wft: "wf_type ba t" by simp
      from wft wt have "get_value ba x \<noteq> PNone" by (rule get_value_keeps_shape)
      moreover from TList wft wt have "validate_type pdt t (get_value ba x) = Inr x" by simp
      ultimately show "item_validate pdt t (get_value ba x) = Inr x"
        by (simp add: item_validate_not_None)
    qed
    then show "validate_type pdt (TList t) (get_value ba v) = Inr v"
      by (simp add: v)
  qed
next
  case (TModel m)
  then show ?case by simp
next
  case (Field n a t r an d)
  then show ?case by simp
next
  case (Model n bs fs)
  show ?case
  proof (intro impI allI)
    fix v assume wf: "wf_type ba (TModel (Model n bs fs))"
      and wtv: "well_typed (TModel (Model n bs fs)) v"
    from wtv obtain vals where v: "v = PModel n vals" and wt: "well_typed_fields fs vals"
      by (cases v) auto
    let ?D = "zip (map falias fs) (map (\<lambda>p. get_value ba (snd p)) vals)"
    from wf have cls: "class_of n = Some (Model n bs fs)"
      and dn: "distinct (map fname fs)" and da: "distinct (map falias fs)"
      and al: "ba \<or> map falias fs = map fname fs" and ro: "root_ok fs"
      and wff: "wf_fields ba fs"
      by simp_all
    from model_export[OF cls dn da al ro wt, of n]
    have ni: "\<not> isinstance (get_value ba v) n"
      and dv: "dict_of_value (enforce_dict_if_root fs (get_value ba v)) = Inr ?D"
      unfolding v by simp_all
    have "validate_fields pdt fs ?D = ([], vals)"
    proof (rule fields_roundtrip[OF _ wt export_lookup[OF da wt]])
      fix f w assume f: "f \<in> set fs" and w: "well_typed (ftyp f) w"
      from wff f have wft: "wf_type ba (ftyp f)" by (rule wf_fields_all)
      with Model.IH[OF f] w have "validate_type pdt (ftyp f) (get_value ba w) = Inr w" by simp
      moreover from wft w have "get_value ba w \<noteq> PNone" by (rule get_value_keeps_shape)
      ultimately show "validate_type pdt (ftyp f) (get_value ba w) = Inr w \<and> get_value ba w \<noteq> PNone"
        by simp
    qed
    then have "validate_model pdt (Model n bs fs) ?D = Inr (PModel n vals)" by simp
    with ni dv show "validate_type pdt (TModel (Model n bs fs)) (get_value ba v) = Inr v"
      by (simp add: v)
  qed
qed

lemma mname_classes:
  "mname Element = ''Element''" "mname Plain = ''Plain''" "mname Source = ''Source''"
  "mname Quote = ''Quote''" "mname At = ''At''" "mname AtAll = ''AtAll''" "mname Face = ''Face''"
  "mname MarketFace = ''MarketFace''" "mname Xml = ''Xml''" "mname Json = ''Json''"
  "mname App = ''App''" "mname Poke = ''Poke''" "mname Dice = ''Dice''"
  "mname MusicShare = ''MusicShare''" "mname Forward = ''Forward''" "mname File = ''File''"
  "mname MiraiCode = ''MiraiCode''" "mname Image = ''Image''" "mname FlashImage = ''FlashImage''"
  "mname Voice = ''Voice''" "mname ForwardNode = ''ForwardNode''"
  "mname MultimediaElement = ''MultimediaElement''" "mname MessageChain = ''MessageChain''"
  by (simp_all add: class_defs)

lemma class_of_classes:
  "class_of ''Element'' = Some Element" "class_of ''Plain'' = Some Plain"
  "class_of ''Source'' = Some Source" "class_of ''Quote'' = Some Quote" "class_of ''At'' = Some At"
  "class_of ''AtAll'' = Some AtAll" "class_of ''Face'' = Some Face"
  "class_of ''MarketFace'' = Some MarketFace" "class_of ''Xml'' = Some Xml"
  "class_of ''Json'' = Some Json" "class_of ''App'' = Some App" "class_of ''Poke'' = Some Poke"
  "class_of ''Dice'' = Some Dice" "class_of ''MusicShare'' = Some MusicShare"
  "class_of ''Forward'' = Some Forward" "class_of ''File'' = Some File"
  "class_of ''MiraiCode'' = Some MiraiCode" "class_of ''Image'' = Some Image"
  "class_of ''FlashImage'' = Some FlashImage" "class_of ''Voice'' = Some Voice"
  "class_of ''ForwardNode'' = Some ForwardNode"
  "class_of ''MultimediaElement'' = Some MultimediaElement"
  "class_of ''MessageChain'' = Some MessageChain"
  by (simp_all add: class_of_def classes_def variants_def mname_classes)

lemma wf_Element: "wf_type ba (TModel Element)"
  using class_of_classes(1) by (simp add: Element_def field_defs)

lemma wf_MessageChain: "wf_type ba (TModel MessageChain)"
  using class_of_classes(23) wf_Element[of ba] by (simp add: MessageChain_def field_defs)

lemma wf_ForwardNode: "wf_type ba (TModel ForwardNode)"
  using class_of_classes(21) wf_MessageChain[of ba] by (simp add: ForwardNode_def field_defs)

lemma wf_Plain: "wf_type ba (TModel Plain)"
  using class_of_classes(2) by (simp add: Plain_def field_defs)

lemma wf_Source: "wf_type ba (TModel Source)"
  using class_of_classes(3) by (simp add: Source_def field_defs)

lemma wf_At: "wf_type ba (TModel At)"
  using class_of_classes(5) by (simp add: At_def field_defs)

lemma wf_AtAll: "wf_type ba (TModel AtAll)"
  using class_of_classes(6) by (simp add: AtAll_def field_defs)

lemma wf_Face: "wf_type ba (TModel Face)"
  using class_of_classes(7) by (simp add: Face_def field_defs)

lemma wf_MarketFace: "wf_type ba (TModel MarketFace)"
  using class_of_classes(8) by (simp add: MarketFace_def field_defs)

lemma wf_Xml: "wf_type ba (TModel Xml)"
  using class_of_classes(9) by (simp add: Xml_def field_defs)

lemma wf_App: "wf_type ba (TModel App)"
  using class_of_classes(11) by (simp add: App_def field_defs)

lemma wf_Poke: "wf_type ba (TModel Poke)"
  using class_of_classes(12) by (simp add: Poke_def field_defs)

lemma wf_Dice: "wf_type ba (TModel Dice)"
  using class_of_classes(13) by (simp add: Dice_def field_defs)

lemma wf_MusicShare: "wf_type ba (TModel MusicShare)"
  using class_of_classes(14) by (simp add: MusicShare_def field_defs)

lemma wf_File: "wf_type ba (TModel File)"
  using class_of_classes(16) by (simp add: File_def field_defs)

lemma wf_MiraiCode: "wf_type ba (TModel MiraiCode)"
  using class_of_classes(17) by (simp add: MiraiCode_def field_defs)

lemma wf_Image: "wf_type ba (TModel Image)"
  using class_of_classes(18) by (simp add: Image_def field_defs)

lemma wf_FlashImage: "wf_type ba (TModel FlashImage)"
  using class_of_classes(19) by (simp add: FlashImage_def field_defs)

lemma wf_Voice: "wf_type ba (TModel Voice)"
  using class_of_classes(20) by (simp add: Voice_def field_defs)

lemma wf_MultimediaElement: "wf_type ba (TModel MultimediaElement)"
  using class_of_classes(22) by (simp add: MultimediaElement_def field_defs)

lemma wf_Quote: "wf_type ba (TModel Quote)"
  using class_of_classes(4) wf_MessageChain[of ba] by (simp add: Quote_def field_defs)

lemma wf_Forward: "wf_type ba (TModel Forward)"
  using class_of_classes(15) wf_ForwardNode[of ba] by (simp add: Forward_def field_defs)

lemma wf_Json: "wf_type True (TModel Json)"
  using class_of_classes(10) by (simp add: Json_def field_defs)

lemmas wf_all = wf_Element wf_MessageChain wf_ForwardNode wf_Quote wf_Forward wf_Plain wf_Source wf_At wf_AtAll wf_Face wf_MarketFace wf_Xml wf_App wf_Poke wf_Dice wf_MusicShare wf_File wf_MiraiCode wf_Image wf_FlashImage wf_Voice wf_MultimediaElement

lemma wf_classes:
  assumes "m \<in> set classes" and "ba \<or> m \<noteq> Json"
  shows "wf_type ba (TModel m)"
proof (cases "m = Json")
  case True
  with assms(2) have ba by simp
  with True show ?thesis by (simp add: wf_Json)
next
  case False
  with assms(1) show ?thesis
    unfolding classes_def variants_def by (auto simp: wf_all)
qed

lemma roundtrip_validate:
  assumes "m \<in> set classes" and "well_typed (TModel m) v" and "ba \<or> m \<noteq> Json"
  shows "validate_type pdt (TModel m) (get_value ba v) = Inr v"
  using export_roundtrip_schema(3)[of ba m pdt] wf_classes[OF assms(1,3)] assms(2) by simp

lemma roundtrip_init:
  assumes "m \<in> set classes" and "well_typed (TModel m) v" and "ba \<or> m \<noteq> Json"
  shows "\<exists>kvs. dict ba v = Some (PDict kvs) \<and> init pdt m kvs = Inr v"
proof -
  obtain n bs fs where m: "m = Model n bs fs" by (cases m)
  from assms(2) obtain vals where v: "v = PModel n vals" and wt: "well_typed_fields fs vals"
    unfolding m by (cases v) auto
  let ?D = "zip (map falias fs) (map (\<lambda>p. get_value ba (snd p)) vals)"
  from wf_classes[OF assms(1,3)] have cls: "class_of n = Some (Model n bs fs)"
      and dn: "distinct (map fname fs)" and da: "distinct (map falias fs)"
      and al: "ba \<or> map falias fs = map fname fs" and ro: "root_ok fs"
    unfolding m by simp_all
  from model_export[OF cls dn da al ro wt, of n]
  have ni: "\<not> isinstance (get_value ba v) n"
    and dv: "dict_of_value (enforce_dict_if_root fs (get_value ba v)) = Inr ?D"
    unfolding v by simp_all
  from roundtrip_validate[OF assms, of pdt]
  have "validate_model pdt (Model n bs fs) ?D = Inr v"
    unfolding m using ni dv by simp
  then have "init pdt m ?D = Inr v"
    by (simp add: init_def m)
  moreover have "dict ba v = Some (PDict ?D)"
    using export_items[OF cls dn al wt] by (simp add: v)
  ultimately show ?thesis by blast
qed

lemma roundtrip_chain:
  assumes "well_typed (TModel MessageChain) c"
  shows "MessageChain_init pdt (get_value ba c) = Inr c"
proof -
  from assms obtain vals where cv: "c = PModel ''MessageChain'' vals"
    and wt: "well_typed_fields [Field ''__root__'' ''__root__'' (TList (TModel Element)) True False PNone] vals"
    unfolding MessageChain_def field_defs by (cases c) auto
  from wt obtain v where vals: "vals = [(''__root__'', v)]" and v: "v \<noteq> PNone" "well_typed (TList (TModel Element)) v"
    by (cases vals) (auto split: if_splits)
  from v(2) obtain xs where "v = PList xs" by (cases v) auto
  with cv vals have c: "c = chain_of xs" by (simp add: chain_of_def)
  have mc: "MessageChain \<in> set classes" by (simp add: classes_def)
  have gv: "get_value ba c = PList (get_values ba xs)"
    by (simp add: c chain_of_def alias_of_base)
  have nj: "MessageChain \<noteq> Json" by (simp add: MessageChain_def Json_def)
  from roundtrip_validate[OF mc assms, of ba pdt] nj
  have "validate_type pdt (TModel MessageChain) (PList (get_values ba xs)) = Inr c"
    by (simp add: gv)
  then have "validate_model pdt MessageChain [(''__root__'', PList (get_values ba xs))] = Inr c"
    unfolding MessageChain_def field_defs
    by (simp add: enforce_dict_if_root_def custom_root_def)
  then show ?thesis
    by (simp add: gv MessageChain_init_def init_def)
qed

text \<open>
  C1, as the code has it. For every class of the file and every value of its field
  contract (\<open>well_typed\<close>: embedded chains hold instances of the base class
  \<^verbatim>\<open>Element\<close>), constructing the class from the export of the value gives the value back.
  This holds for the export by alias for every class, and for the default export for
  every class but \<^verbatim>\<open>Json\<close>; for a chain, \<^verbatim>\<open>MessageChain\<close> applied to the exported list
  gives the chain back. A chain that holds instances of variants is outside the
  statement: it decodes back to their base elements.
\<close>

theorem decode_export_roundtrip:
  assumes "m \<in> set classes" and "well_typed (TModel m) v" and "ba \<or> m \<noteq> Json"
  shows "(\<exists>kvs. dict ba v = Some (PDict kvs) \<and> init pdt m kvs = Inr v) \<and>
         (m = MessageChain \<longrightarrow> MessageChain_init pdt (get_value ba v) = Inr v)"
  using roundtrip_init[OF assms] roundtrip_chain assms(2) by blast

text \<open>The theorem at a \<^verbatim>\<open>Quote\<close> whose \<^verbatim>\<open>origin\<close> is a chain of one element.\<close>

theorem decode_export_roundtrip_witness:
  "dict False (PModel ''Quote''
     [(''type'', PStr ''Quote''), (''id'', PInt 1), (''groupId'', PInt 2), (''senderId'', PInt 3),
      (''targetId'', PInt 4), (''origin'', chain_of [base_element ''Plain''])]) =
   Some (PDict [(''type'', PStr ''Quote''), (''id'', PInt 1), (''groupId'', PInt 2), (''senderId'', PInt 3),
      (''targetId'', PInt 4), (''origin'', PList [PDict [(''type'', PStr ''Plain'')]])]) \<and>
   init refuse_all Quote
     [(''type'', PStr ''Quote''), (''id'', PInt 1), (''groupId'', PInt 2), (''senderId'', PInt 3),
      (''targetId'', PInt 4), (''origin'', PList [PDict [(''type'', PStr ''Plain'')]])] =
   Inr (PModel ''Quote''
     [(''type'', PStr ''Quote''), (''id'', PInt 1), (''groupId'', PInt 2), (''senderId'', PInt 3),
      (''targetId'', PInt 4), (''origin'', chain_of [base_element ''Plain''])])"
proof -
  let ?v = "PModel ''Quote''
     [(''type'', PStr ''Quote''), (''id'', PInt 1), (''groupId'', PInt 2), (''senderId'', PInt 3),
      (''targetId'', PInt 4), (''origin'', chain_of [base_element ''Plain''])]"
  have m: "Quote \<in> set classes" by (simp add: classes_def variants_def)
  have wt: "well_typed (TModel Quote) ?v"
    by (simp add: Quote_def MessageChain_def Element_def field_defs chain_of_def base_element_def)
  have d: "dict False ?v = Some (PDict
     [(''type'', PStr ''Quote''), (''id'', PInt 1), (''groupId'', PInt 2), (''senderId'', PInt 3),
      (''targetId'', PInt 4), (''origin'', PList [PDict [(''type'', PStr ''Plain'')]])])"
    by (simp add: chain_of_def base_element_def)
  have "False \<or> Quote \<noteq> Json" by (simp add: Quote_def Json_def)
  from decode_export_roundtrip[OF m wt this, of refuse_all] d show ?thesis by simp
qed

text \<open>C1 as stated fails. A chain built from a \<^verbatim>\<open>Plain\<close> element is exported with
  the element's \<^verbatim>\<open>text\<close> and decoded back to a base element, which is not the element
  it came from. The default export of a \<^verbatim>\<open>Json\<close> element writes the key \<^verbatim>\<open>Json\<close>, which
  decoding ignores, so the content comes back as \<^verbatim>\<open>None\<close>.\<close>

theorem typed_chain_does_not_round_trip:
  "init refuse_all Plain [(''text'', PStr ''hi'')] =
     Inr (PModel ''Plain'' [(''type'', PStr ''Plain''), (''text'', PStr ''hi'')]) \<and>
   MessageChain_init refuse_all (PList [PModel ''Plain'' [(''type'', PStr ''Plain''), (''text'', PStr ''hi'')]]) =
     Inr (chain_of [PModel ''Plain'' [(''type'', PStr ''Plain''), (''text'', PStr ''hi'')]]) \<and>
   get_value False (chain_of [PModel ''Plain'' [(''type'', PStr ''Plain''), (''text'', PStr ''hi'')]]) =
     PList [PDict [(''type'', PStr ''Plain''), (''text'', PStr ''hi'')]] \<and>
   MessageChain_init refuse_all (PList [PDict [(''type'', PStr ''Plain''), (''text'', PStr ''hi'')]]) =
     Inr (chain_of [base_element ''Plain'']) \<and>
   chain_of [base_element ''Plain''] \<noteq>
     chain_of [PModel ''Plain'' [(''type'', PStr ''Plain''), (''text'', PStr ''hi'')]] \<and>
   dict False (PModel ''Json'' [(''type'', PStr ''Json''), (''Json'', PStr example_json)]) =
     Some (PDict [(''type'', PStr ''Json''), (''Json'', PStr example_json)]) \<and>
   init refuse_all Json [(''type'', PStr ''Json''), (''Json'', PStr example_json)] =
     Inr (PModel ''Json'' [(''type'', PStr ''Json''), (''Json'', PNone)])"
proof -
  have sub: "issubclass ''Plain'' ''Element''"
    by (simp add: issubclass_def class_of_classes Plain_def)
  show ?thesis
    by (simp add: init_def Plain_def Json_def field_defs lift_result_def MessageChain_init_list item_validate.simps
        Element_validate validate_model_Element sub chain_of_def base_element_def)
qed

section \<open>The export of elements and chains\<close>

lemma validate_type_errors_nonempty: "validate_type pdt t v = Inl e \<Longrightarrow> e \<noteq> []"
proof (cases t)
  case (TModel m)
  obtain n bs fs where m: "m = Model n bs fs" by (cases m)
  assume "validate_type pdt t v = Inl e"
  then show ?thesis
    unfolding TModel m
    by (auto split: if_splits sum.splits prod.splits list.splits)
next
  case (TList t')
  assume "validate_type pdt t v = Inl e"
  then show ?thesis
    unfolding TList
    by (auto split: pyval.splits prod.splits list.splits)
qed (auto simp: lift_result_def split: sum.splits)

lemma field_validate_errors_nonempty: "field_validate pdt f v = Inl e \<Longrightarrow> e \<noteq> []"
  by (cases f)
     (auto simp: at_loc_def split: if_splits sum.splits dest: validate_type_errors_nonempty)

lemma validate_fields_names:
  "validate_fields pdt fs d = ([], vals) \<Longrightarrow> map fst vals = map fname fs"
proof (induction fs arbitrary: vals)
  case Nil
  then show ?case by simp
next
  case (Cons f fs)
  obtain n a t r an dv where f: "f = Field n a t r an dv" by (cases f)
  obtain es rest where tail: "validate_fields pdt fs d = (es, rest)"
    by (cases "validate_fields pdt fs d")
  show ?case
  proof (cases "map_of d a")
    case None
    with Cons.prems tail have "es = []" "vals = (n, dv) # rest"
      by (auto simp: f split: if_splits)
    with Cons.IH[of rest] tail show ?thesis by (simp add: f)
  next
    case (Some v)
    show ?thesis
    proof (cases "field_validate pdt (Field n a t r an dv) v")
      case (Inl e)
      then have "e \<noteq> []" by (rule field_validate_errors_nonempty)
      with Cons.prems tail Some Inl show ?thesis
        by (simp add: f del: field_validate.simps)
    next
      case (Inr v')
      with Cons.prems tail Some have "es = []" "vals = (n, v') # rest"
        by (simp_all add: f del: field_validate.simps)
      with Cons.IH[of rest] tail show ?thesis by (simp add: f)
    qed
  qed
qed

lemma init_names:
  assumes "init pdt m d = Inr e"
  shows "\<exists>vals. e = PModel (mname m) vals \<and> map fst vals = map fname (mfields m)"
proof -
  obtain n bs fs where m: "m = Model n bs fs" by (cases m)
  from assms obtain vals where v: "validate_fields pdt fs d = ([], vals)" and e: "e = PModel n vals"
    unfolding m by (auto simp: init_eq split: prod.splits list.splits)
  from validate_fields_names[OF v] have "map fst vals = map fname fs" .
  with e show ?thesis by (simp add: m)
qed

lemma elements_are_classes: "m \<in> set (Element # variants) \<Longrightarrow> m \<in> set classes"
  by (auto simp: classes_def)

lemma elements_no_root:
  assumes "m \<in> set (Element # variants)"
  shows "''__root__'' \<notin> set (map fname (mfields m)) \<and> ''__root__'' \<notin> set (map falias (mfields m))"
proof -
  from elements_shape[OF assms] obtain tag fs where
    ms: "m = Model (mname m) (mbases m) (defaulted ''type'' TStr (PStr tag) # fs)" by blast
  from wf_classes[OF elements_are_classes[OF assms], of True]
  have "wf_type True (TModel (Model (mname m) (mbases m) (defaulted ''type'' TStr (PStr tag) # fs)))"
    using ms by simp
  then have "root_ok (defaulted ''type'' TStr (PStr tag) # fs)" by simp
  from root_ok_cases[OF this] have
    "''__root__'' \<notin> set (map fname (defaulted ''type'' TStr (PStr tag) # fs)) \<and>
     ''__root__'' \<notin> set (map falias (defaulted ''type'' TStr (PStr tag) # fs))"
    by (auto simp: field_defs)
  moreover have "mfields m = defaulted ''type'' TStr (PStr tag) # fs"
    by (subst ms) simp
  ultimately show ?thesis by simp
qed

lemma atom_get_value: "atom v \<Longrightarrow> get_value ba v = v"
  by (cases v) simp_all

lemma export_keys:
  assumes "m \<in> set (Element # variants)" and "map fst vals = map fname (mfields m)"
  shows "map fst (get_items ba (if ba then alias_of (mname m) else (\<lambda>k. k)) vals) =
           map (if ba then falias else fname) (mfields m)"
proof -
  obtain n bs fs where m: "m = Model n bs fs" by (cases m)
  from wf_classes[OF elements_are_classes[OF assms(1)], of True]
  have cls: "class_of n = Some (Model n bs fs)" and dn: "distinct (map fname fs)"
    unfolding m by simp_all
  have fst_items: "\<And>b key. map fst (get_items b key vals) = map key (map fst vals)"
    by (simp add: get_items_map comp_def case_prod_unfold)
  show ?thesis
  proof (cases ba)
    case True
    have "map (alias_of n) (map fname fs) = map falias fs"
      using cls dn by (simp add: alias_of_field)
    moreover have "map fst (get_items ba (alias_of n) vals) = map (alias_of n) (map fname fs)"
      unfolding fst_items using assms(2) by (simp add: m)
    ultimately show ?thesis using True by (simp add: m)
  next
    case False
    with assms(2) show ?thesis by (simp add: fst_items m)
  qed
qed

lemma element_export:
  assumes m: "m \<in> set (Element # variants)" and i: "init pdt m d = Inr e"
  shows "\<exists>vals kvs. e = PModel (mname m) vals \<and>
           dict ba e = Some (PDict kvs) \<and> get_value ba e = PDict kvs \<and>
           map fst kvs = map (if ba then falias else fname) (mfields m) \<and>
           length kvs = length vals \<and>
           (\<forall>j < length vals. atom (snd (vals ! j)) \<longrightarrow> snd (kvs ! j) = snd (vals ! j)) \<and>
           tagged (PDict kvs) \<and> no_models (PDict kvs)"
proof -
  from init_names[OF i] obtain vals where e: "e = PModel (mname m) vals"
    and names: "map fst vals = map fname (mfields m)" by blast
  let ?key = "if ba then alias_of (mname m) else (\<lambda>k. k)"
  let ?kvs = "get_items ba ?key vals"
  have keys: "map fst ?kvs = map (if ba then falias else fname) (mfields m)"
    using m names by (rule export_keys)
  have d: "dict ba e = Some (PDict ?kvs)" by (simp add: e)
  from elements_no_root[OF m] keys have "''__root__'' \<notin> set (map fst ?kvs)"
    by (cases ba) simp_all
  then have "map_of ?kvs ''__root__'' = None"
    by (simp add: map_of_eq_None_iff)
  then have g: "get_value ba e = PDict ?kvs" by (simp add: e Let_def)
  have len: "length ?kvs = length vals" by (simp add: get_items_map)
  have atoms: "\<forall>j < length vals. atom (snd (vals ! j)) \<longrightarrow> snd (?kvs ! j) = snd (vals ! j)"
    by (auto simp: get_items_map atom_get_value case_prod_unfold)
  from elements_shape[OF m] obtain tag fs where
    ms: "m = Model (mname m) (mbases m) (defaulted ''type'' TStr (PStr tag) # fs)" by blast
  from i have "validate_model pdt m d = Inr e" by (simp add: init_def split: sum.splits)
  with ms have "validate_model pdt (Model (mname m) (mbases m) (defaulted ''type'' TStr (PStr tag) # fs)) d = Inr e"
    by simp
  from type_field_str[OF this] e obtain t rest where vals: "vals = (''type'', PStr t) # rest"
    by auto
  have tg: "tagged (PDict ?kvs)"
    by (simp add: vals alias_of_type[OF m])
  have nm: "no_models (PDict ?kvs)"
    using get_value_no_models(3)[of ba ?key vals] by simp
  from e d g keys len atoms tg nm show ?thesis by blast
qed

lemma elements_isinstance:
  assumes "m \<in> set (Element # variants)"
  shows "issubclass (mname m) ''Element''"
proof (cases "m = Element")
  case True
  then show ?thesis by (simp add: issubclass_def Element_def)
next
  case False
  with assms have v: "m \<in> set variants" by simp
  from variants_shape[OF v] obtain fs where
    ms: "m = Model (mname m) [''Element''] (defaulted ''type'' TStr (PStr (mname m)) # fs)" by blast
  from wf_classes[OF elements_are_classes[OF assms], of True]
  have "wf_type True (TModel (Model (mname m) [''Element''] (defaulted ''type'' TStr (PStr (mname m)) # fs)))"
    using ms by simp
  then have "class_of (mname m) = Some (Model (mname m) [''Element''] (defaulted ''type'' TStr (PStr (mname m)) # fs))"
    by simp
  then show ?thesis by (simp add: issubclass_def)
qed

lemma base_element_export:
  "get_value ba (base_element t) = PDict [(''type'', PStr t)]"
  by (simp add: base_element_def alias_of_base)

lemma chain_export:
  assumes dec: "MessageChain_init pdt (PList xs) = Inr c"
    and valid: "\<forall>x \<in> set xs. (\<exists>p. x = PDict p) \<or>
                  (\<exists>m d. m \<in> set (Element # variants) \<and> init pdt m d = Inr x)"
  shows "\<exists>es. c = chain_of es \<and> length es = length xs \<and>
           (\<forall>j < length xs. item_validate pdt (TModel Element) (xs ! j) = Inr (es ! j)) \<and>
           get_value ba c = PList (map (get_value ba) es) \<and>
           (\<forall>e \<in> set es. tagged (get_value ba e) \<and> no_models (get_value ba e))"
proof -
  let ?f = "item_validate pdt (TModel Element)"
  let ?es = "map (\<lambda>x. projr (?f x)) xs"
  from dec have ok: "list_all (\<lambda>x. \<not> isl (?f x)) xs" and c: "c = chain_of ?es"
    by (auto simp: chain_decode_eq split: if_splits)
  have res: "\<And>x. x \<in> set xs \<Longrightarrow> ?f x = Inr (projr (?f x))"
  proof -
    fix x assume "x \<in> set xs"
    with ok have "\<not> isl (?f x)" by (simp add: list_all_iff)
    then show "?f x = Inr (projr (?f x))" by (cases "?f x") auto
  qed
  have items: "\<forall>j < length xs. ?f (xs ! j) = Inr (?es ! j)"
    using res by simp
  have exp: "get_value ba c = PList (map (get_value ba) ?es)"
    by (simp add: c chain_of_def alias_of_base get_values_map)
  have each: "\<forall>e \<in> set ?es. tagged (get_value ba e) \<and> no_models (get_value ba e)"
  proof
    fix e assume "e \<in> set ?es"
    then obtain x where x: "x \<in> set xs" and e: "e = projr (?f x)" by auto
    from res[OF x] e have fx: "?f x = Inr e" by simp
    from valid x consider (payload) p where "x = PDict p"
      | (element) m d where "m \<in> set (Element # variants)" "init pdt m d = Inr x"
      by blast
    then show "tagged (get_value ba e) \<and> no_models (get_value ba e)"
    proof cases
      case payload
      with fx have "validate_type pdt (TModel Element) (PDict p) = Inr e"
        by (simp add: item_validate_not_None)
      from Element_dict_result[OF this] obtain t where "e = base_element t" by blast
      then show ?thesis by (simp add: base_element_export)
    next
      case element
      from init_names[OF element(2)] obtain vals where xv: "x = PModel (mname m) vals" by blast
      have "isinstance x ''Element''"
        using elements_isinstance[OF element(1)] by (simp add: xv)
      then have "?f x = Inr x"
        by (simp add: xv item_validate_not_None Element_validate)
      with fx have "e = x" by simp
      with element_export[OF element, of ba] show ?thesis by auto
    qed
  qed
  from c items exp each show ?thesis
    by (intro exI[of _ ?es]) simp
qed

text \<open>
  C10, as the code has it. The export has no failing branch, and for every constructed
  element and every constructed chain it exists and has this shape. An element built by
  \<^verbatim>\<open>Element\<close> or by a variant exports to a dict whose keys are the fields of its class in
  order (the aliases when the export is by alias), whose \<^verbatim>\<open>type\<close> holds a string, and
  in which every value that is no list, dict or model is the stored value itself. A
  chain built from payloads and constructed elements exports to the list of the exports
  of its elements, in order, each of them such a tagged dict. No model instance is left
  in an export. The export is not always raw: a datetime object and an enumeration
  member are exported as the objects they are.
\<close>

theorem export_shape:
  assumes "m \<in> set (Element # variants)" and "init pdt m d = Inr e"
    and "MessageChain_init pdt (PList xs) = Inr c"
    and "\<forall>x \<in> set xs. (\<exists>p. x = PDict p) \<or>
                  (\<exists>m' d'. m' \<in> set (Element # variants) \<and> init pdt m' d' = Inr x)"
  shows "(\<exists>vals kvs. e = PModel (mname m) vals \<and>
           dict ba e = Some (PDict kvs) \<and> get_value ba e = PDict kvs \<and>
           map fst kvs = map (if ba then falias else fname) (mfields m) \<and>
           length kvs = length vals \<and>
           (\<forall>j < length vals. atom (snd (vals ! j)) \<longrightarrow> snd (kvs ! j) = snd (vals ! j)) \<and>
           tagged (PDict kvs) \<and> no_models (PDict kvs)) \<and>
         (\<exists>es. c = chain_of es \<and> length es = length xs \<and>
           (\<forall>j < length xs. item_validate pdt (TModel Element) (xs ! j) = Inr (es ! j)) \<and>
           get_value ba c = PList (map (get_value ba) es) \<and>
           (\<forall>e \<in> set es. tagged (get_value ba e) \<and> no_models (get_value ba e)))"
proof (rule conjI)
  show "\<exists>vals kvs. e = PModel (mname m) vals \<and>
           dict ba e = Some (PDict kvs) \<and> get_value ba e = PDict kvs \<and>
           map fst kvs = map (if ba then falias else fname) (mfields m) \<and>
           length kvs = length vals \<and>
           (\<forall>j < length vals. atom (snd (vals ! j)) \<longrightarrow> snd (kvs ! j) = snd (vals ! j)) \<and>
           tagged (PDict kvs) \<and> no_models (PDict kvs)"
    using assms(1,2) by (rule element_export)
  show "\<exists>es. c = chain_of es \<and> length es = length xs \<and>
           (\<forall>j < length xs. item_validate pdt (TModel Element) (xs ! j) = Inr (es ! j)) \<and>
           get_value ba c = PList (map (get_value ba) es) \<and>
           (\<forall>e \<in> set es. tagged (get_value ba e) \<and> no_models (get_value ba e))"
    using assms(3,4) by (rule chain_export)
qed

text \<open>The theorem at a \<^verbatim>\<open>Plain\<close> element and at the chain built from that element and
  an \<^verbatim>\<open>AtAll\<close> payload.\<close>

theorem export_shape_witness:
  "dict False (PModel ''Plain'' [(''type'', PStr ''Plain''), (''text'', PStr ''hi'')]) =
     Some (PDict [(''type'', PStr ''Plain''), (''text'', PStr ''hi'')]) \<and>
   get_value False (chain_of [PModel ''Plain'' [(''type'', PStr ''Plain''), (''text'', PStr ''hi'')],
                              base_element ''AtAll'']) =
     PList [PDict [(''type'', PStr ''Plain''), (''text'', PStr ''hi'')], PDict [(''type'', PStr ''AtAll'')]] \<and>
   (\<exists>es. chain_of [PModel ''Plain'' [(''type'', PStr ''Plain''), (''text'', PStr ''hi'')],
                    base_element ''AtAll''] = chain_of es \<and> length es = 2 \<and>
      (\<forall>e \<in> set es. tagged (get_value False e) \<and> no_models (get_value False e)))"
proof -
  let ?e = "PModel ''Plain'' [(''type'', PStr ''Plain''), (''text'', PStr ''hi'')]"
  let ?xs = "[?e, PDict [(''type'', PStr ''AtAll'')]]"
  let ?c = "chain_of [?e, base_element ''AtAll'']"
  have m: "Plain \<in> set (Element # variants)" by (simp add: variants_def)
  have i: "init refuse_all Plain [(''text'', PStr ''hi'')] = Inr ?e"
    by (simp add: init_def Plain_def field_defs lift_result_def)
  have sub: "issubclass ''Plain'' ''Element''"
    by (simp add: issubclass_def class_of_classes Plain_def)
  have c: "MessageChain_init refuse_all (PList ?xs) = Inr ?c"
    by (simp add: MessageChain_init_list item_validate.simps Element_validate validate_model_Element
        sub chain_of_def base_element_def)
  have v: "\<forall>x \<in> set ?xs. (\<exists>p. x = PDict p) \<or>
                  (\<exists>m' d'. m' \<in> set (Element # variants) \<and> init refuse_all m' d' = Inr x)"
  proof
    fix x assume "x \<in> set ?xs"
    then have "x = ?e \<or> x = PDict [(''type'', PStr ''AtAll'')]" by simp
    then show "(\<exists>p. x = PDict p) \<or>
                  (\<exists>m' d'. m' \<in> set (Element # variants) \<and> init refuse_all m' d' = Inr x)"
    proof
      assume "x = ?e"
      with m i have "\<exists>m' d'. m' \<in> set (Element # variants) \<and> init refuse_all m' d' = Inr x"
        by (intro exI[of _ Plain] exI[of _ "[(''text'', PStr ''hi'')]"]) simp
      then show ?thesis ..
    next
      assume "x = PDict [(''type'', PStr ''AtAll'')]"
      then have "\<exists>p. x = PDict p" by simp
      then show ?thesis ..
    qed
  qed
  from export_shape[OF m i c v, of False]
  have "\<exists>es. ?c = chain_of es \<and> length es = length ?xs \<and>
           (\<forall>j < length ?xs. item_validate refuse_all (TModel Element) (?xs ! j) = Inr (es ! j)) \<and>
           get_value False ?c = PList (map (get_value False) es) \<and>
           (\<forall>e \<in> set es. tagged (get_value False e) \<and> no_models (get_value False e))"
    by (rule conjunct2)
  then obtain es where es: "?c = chain_of es" "length es = length ?xs"
    "\<forall>e \<in> set es. tagged (get_value False e) \<and> no_models (get_value False e)"
    by (elim exE conjE)
  have "dict False ?e = Some (PDict [(''type'', PStr ''Plain''), (''text'', PStr ''hi'')])"
    by simp
  moreover have "get_value False ?c =
     PList [PDict [(''type'', PStr ''Plain''), (''text'', PStr ''hi'')], PDict [(''type'', PStr ''AtAll'')]]"
    by (simp add: chain_of_def base_element_def alias_of_base)
  moreover from es have "\<exists>es. ?c = chain_of es \<and> length es = 2 \<and>
      (\<forall>e \<in> set es. tagged (get_value False e) \<and> no_models (get_value False e))"
    by (intro exI[of _ es]) simp
  ultimately show ?thesis by blast
qed

text \<open>C10 as stated fails: the export of a \<^verbatim>\<open>Source\<close> element holds the datetime
  object of its \<^verbatim>\<open>time\<close>, which is no raw value.\<close>

theorem export_keeps_datetime_objects:
  "init refuse_all Source [(''id'', PInt 1), (''time'', PDatetime 0)] =
     Inr (PModel ''Source'' [(''type'', PStr ''Source''), (''id'', PInt 1), (''time'', PDatetime 0)]) \<and>
   dict False (PModel ''Source'' [(''type'', PStr ''Source''), (''id'', PInt 1), (''time'', PDatetime 0)]) =
     Some (PDict [(''type'', PStr ''Source''), (''id'', PInt 1), (''time'', PDatetime 0)]) \<and>
   \<not> wire_value (PDict [(''type'', PStr ''Source''), (''id'', PInt 1), (''time'', PDatetime 0)])"
  by (simp add: init_def Source_def field_defs lift_result_def)

end
